theory Spec2Isabelle
  imports Main
begin

section \<open>Values of the Darwin push-port client (src/lib/darwin.js)\<close>

text \<open>
  A decoded message is what \<^verbatim>\<open>JSON.parse\<close> returns: a JSON tree. An object is the list of
  its own properties in the order JavaScript enumerates them. A number is kept as the text
  that \<^verbatim>\<open>JSON.stringify\<close> prints for it (for example \<^verbatim>\<open>1.5\<close> or \<^verbatim>\<open>-3\<close>),
  since the program never computes with numbers. A string is a list of code units; the
  model has the code units 0 to 255.
\<close>

datatype json =
    JNull
  | JBool bool
  | JNum string
  | JStr string
  | JArr "json list"
  | JObj "(string \<times> json) list"

text \<open>Reading a property that is absent gives \<^verbatim>\<open>undefined\<close>, which is not a JSON value.\<close>

datatype jsval = Undefined | Val json

text \<open>
  What can be thrown: the \<^verbatim>\<open>TypeError\<close> of reading a property (named in the error) of
  \<^verbatim>\<open>undefined\<close> or \<^verbatim>\<open>null\<close>, the \<^verbatim>\<open>SyntaxError\<close> of \<^verbatim>\<open>JSON.parse\<close>, the error that
  \<^verbatim>\<open>emit\<close> makes for an \<^verbatim>\<open>error\<close> event that has no listener and carries no error
  object, and whatever an external collaborator or a listener throws.
\<close>

datatype 'x exn = TypeError string | SyntaxError | UnhandledError | Thrown 'x

text \<open>
  \<^verbatim>\<open>v.k\<close> for the property names the program reads (Pport, ts, uR, TS, schedule,
  association, trainOrder, OW, updateOrigin, requestID, requestSource): none of them is a
  property of a prototype, so on a boolean, number, string or array the read gives
  \<^verbatim>\<open>undefined\<close>.
\<close>

definition own_property :: "(string \<times> json) list \<Rightarrow> string \<Rightarrow> jsval" where
  "own_property kvs k = (case map_of kvs k of None \<Rightarrow> Undefined | Some v \<Rightarrow> Val v)"

fun getProp :: "jsval \<Rightarrow> string \<Rightarrow> 'x exn + jsval" where
  "getProp Undefined k = Inl (TypeError k)"
| "getProp (Val JNull) k = Inl (TypeError k)"
| "getProp (Val (JObj kvs)) k = Inr (own_property kvs k)"
| "getProp (Val (JBool b)) k = Inr Undefined"
| "getProp (Val (JNum n)) k = Inr Undefined"
| "getProp (Val (JStr s)) k = Inr Undefined"
| "getProp (Val (JArr xs)) k = Inr Undefined"

text \<open>A chain of reads, \<^verbatim>\<open>v.k1.k2.k3\<close>, left to right; the first failing read throws.\<close>

fun path :: "jsval \<Rightarrow> string list \<Rightarrow> 'x exn + jsval" where
  "path v [] = Inr v"
| "path v (k # ks) = (case getProp v k of Inl e \<Rightarrow> Inl e | Inr w \<Rightarrow> path w ks)"

section \<open>JSON text: JSON.stringify, String.prototype.replace, JSON.parse\<close>

text \<open>
  \<^verbatim>\<open>replaceKeys\<close> works on the text of the record, so the text is modelled character by
  character. \<^verbatim>\<open>JSON.stringify\<close> with one argument prints no white space; it escapes the
  double quote, the backslash and the control characters of a string.
\<close>

definition dquote :: char where
  "dquote = CHR 0x22"

definition backslash :: char where
  "backslash = CHR 0x5C"

definition hex_digit :: "nat \<Rightarrow> char" where
  "hex_digit n = (if n < 10 then char_of (48 + n) else char_of (87 + n))"

definition escape_char :: "char \<Rightarrow> string" where
  "escape_char c =
    (if c = dquote then [backslash, dquote]
     else if c = backslash then [backslash, backslash]
     else if c = CHR 0x08 then [backslash, CHR ''b'']
     else if c = CHR 0x09 then [backslash, CHR ''t'']
     else if c = CHR 0x0A then [backslash, CHR ''n'']
     else if c = CHR 0x0C then [backslash, CHR ''f'']
     else if c = CHR 0x0D then [backslash, CHR ''r'']
     else if of_char c < (32::nat) then
       [backslash, CHR ''u'', CHR ''0'', CHR ''0'',
        hex_digit (of_char c div 16), hex_digit (of_char c mod 16)]
     else [c])"

definition quote :: "string \<Rightarrow> string" where
  "quote s = dquote # concat (map escape_char s) @ [dquote]"

fun join :: "'a list \<Rightarrow> 'a list list \<Rightarrow> 'a list" where
  "join sep [] = []"
| "join sep [x] = x"
| "join sep (x # y # ys) = x @ sep @ join sep (y # ys)"

fun JSON_stringify :: "json \<Rightarrow> string" where
  "JSON_stringify JNull = ''null''"
| "JSON_stringify (JBool b) = (if b then ''true'' else ''false'')"
| "JSON_stringify (JNum n) = n"
| "JSON_stringify (JStr s) = quote s"
| "JSON_stringify (JArr xs) = ''['' @ join '','' (map JSON_stringify xs) @ '']''"
| "JSON_stringify (JObj kvs) =
     ''{'' @ join '','' (map (\<lambda>(k, v). quote k @ '':'' @ JSON_stringify v) kvs) @ ''}''"

text \<open>
  Both regular expressions of \<^verbatim>\<open>replaceKeys\<close> are a sequence of single-character
  classes. With the flag \<^verbatim>\<open>g\<close>, \<^verbatim>\<open>replace\<close> scans the text from the left; where the
  expression matches it puts the replacement and goes on after the match, elsewhere it
  keeps the character.
\<close>

type_synonym regex = "(char \<Rightarrow> bool) list"

fun match_here :: "regex \<Rightarrow> string \<Rightarrow> bool" where
  "match_here [] s = True"
| "match_here (p # ps) [] = False"
| "match_here (p # ps) (c # cs) = (p c \<and> match_here ps cs)"

fun replace_from :: "regex \<Rightarrow> string \<Rightarrow> nat \<Rightarrow> string \<Rightarrow> string" where
  "replace_from re rep skip [] = []"
| "replace_from re rep (Suc k) (c # cs) = replace_from re rep k cs"
| "replace_from re rep 0 (c # cs) =
     (if match_here re (c # cs) then rep @ replace_from re rep (length re - 1) cs
      else c # replace_from re rep 0 cs)"

definition replace_all :: "regex \<Rightarrow> string \<Rightarrow> string \<Rightarrow> string" where
  "replace_all re rep s = replace_from re rep 0 s"

definition is_digit :: "char \<Rightarrow> bool" where
  "is_digit c = (48 \<le> (of_char c :: nat) \<and> (of_char c :: nat) \<le> 57)"

definition literal :: "string \<Rightarrow> regex" where
  "literal s = map (\<lambda>a c. c = a) s"

text \<open>
  The two expressions of the source: the quoted text \<^verbatim>\<open>"ns3:Location"\<close>, and a double
  quote, \<^verbatim>\<open>ns\<close>, one decimal digit and a colon.
\<close>

definition re_ns3_Location :: regex where
  "re_ns3_Location = literal ([dquote] @ ''ns3:Location'' @ [dquote])"

definition re_ns_digit :: regex where
  "re_ns_digit = literal ([dquote] @ ''ns'') @ [is_digit] @ literal '':''"

text \<open>
  \<^verbatim>\<open>JSON.parse\<close>: a lexer, then a parser with a stack of the arrays and objects that are
  still open. A number token keeps its text, which is the number's own text for every
  text that \<^verbatim>\<open>JSON.stringify\<close> printed. A four-digit hexadecimal escape above 00FF is outside the
  model's code units and is refused; \<^verbatim>\<open>JSON.stringify\<close> above prints none.
\<close>

datatype token =
  TLBrace | TRBrace | TLBrack | TRBrack | TColon | TComma
  | TStr string | TNum string | TTrue | TFalse | TNull

definition is_ws :: "char \<Rightarrow> bool" where
  "is_ws c = (c = CHR '' '' \<or> c = CHR 0x09 \<or> c = CHR 0x0A \<or> c = CHR 0x0D)"

definition hex_value :: "char \<Rightarrow> nat option" where
  "hex_value c =
    (let n = (of_char c :: nat) in
     if 48 \<le> n \<and> n \<le> 57 then Some (n - 48)
     else if 97 \<le> n \<and> n \<le> 102 then Some (n - 87)
     else if 65 \<le> n \<and> n \<le> 70 then Some (n - 55)
     else None)"

definition hex4 :: "char \<Rightarrow> char \<Rightarrow> char \<Rightarrow> char \<Rightarrow> nat option" where
  "hex4 a b c d =
    (case (hex_value a, hex_value b, hex_value c, hex_value d) of
       (Some x, Some y, Some z, Some w) \<Rightarrow> Some (((x * 16 + y) * 16 + z) * 16 + w)
     | _ \<Rightarrow> None)"

definition unescape :: "char \<Rightarrow> char option" where
  "unescape e =
    (if e = dquote then Some dquote
     else if e = backslash then Some backslash
     else if e = CHR ''/'' then Some (CHR ''/'')
     else if e = CHR ''b'' then Some (CHR 0x08)
     else if e = CHR ''f'' then Some (CHR 0x0C)
     else if e = CHR ''n'' then Some (CHR 0x0A)
     else if e = CHR ''r'' then Some (CHR 0x0D)
     else if e = CHR ''t'' then Some (CHR 0x09)
     else None)"

text \<open>
  The escape after a backslash: the character it stands for and the number of characters
  it takes.
\<close>

definition decode_escape :: "string \<Rightarrow> (char \<times> nat) option" where
  "decode_escape cs =
    (case cs of
       [] \<Rightarrow> None
     | e # rest \<Rightarrow>
         if e = CHR ''u'' then
           (case rest of
              h1 # h2 # h3 # h4 # rest' \<Rightarrow>
                (case hex4 h1 h2 h3 h4 of
                   None \<Rightarrow> None
                 | Some n \<Rightarrow> if n < 256 then Some (char_of n, 5) else None)
            | _ \<Rightarrow> None)
         else map_option (\<lambda>d. (d, 1)) (unescape e))"

fun lex_string :: "string \<Rightarrow> nat \<Rightarrow> string \<Rightarrow> (string \<times> string) option" where
  "lex_string acc skip [] = None"
| "lex_string acc (Suc k) (c # cs) = lex_string acc k cs"
| "lex_string acc 0 (c # cs) =
    (if c = dquote then Some (acc, cs)
     else if c = backslash then
       (case decode_escape cs of
          None \<Rightarrow> None
        | Some (d, n) \<Rightarrow> lex_string (acc @ [d]) n cs)
     else if (of_char c :: nat) < 32 then None
     else lex_string (acc @ [c]) 0 cs)"

definition is_number_char :: "char \<Rightarrow> bool" where
  "is_number_char c =
    (is_digit c \<or> c = CHR ''-'' \<or> c = CHR ''+'' \<or> c = CHR ''.'' \<or> c = CHR ''e'' \<or> c = CHR ''E'')"

definition digits1 :: "string \<Rightarrow> bool" where
  "digits1 s = (s \<noteq> [] \<and> list_all is_digit s)"

definition valid_number :: "string \<Rightarrow> bool" where
  "valid_number s =
    (let s1 = (case s of [] \<Rightarrow> [] | c # cs \<Rightarrow> if c = CHR ''-'' then cs else s);
         ip = takeWhile is_digit s1;
         r1 = dropWhile is_digit s1;
         fr = (case r1 of [] \<Rightarrow> None | c # cs \<Rightarrow> if c = CHR ''.'' then Some cs else None);
         r2 = (case fr of None \<Rightarrow> r1 | Some cs \<Rightarrow> dropWhile is_digit cs);
         ex = (case r2 of [] \<Rightarrow> None | c # cs \<Rightarrow> if c = CHR ''e'' \<or> c = CHR ''E'' then Some cs else None)
     in (ip = ''0'' \<or> (digits1 ip \<and> hd ip \<noteq> CHR ''0''))
        \<and> (case fr of None \<Rightarrow> True | Some cs \<Rightarrow> takeWhile is_digit cs \<noteq> [])
        \<and> (case ex of
              None \<Rightarrow> r2 = []
            | Some cs \<Rightarrow>
                digits1 (case cs of [] \<Rightarrow> [] | d # ds \<Rightarrow> if d = CHR ''+'' \<or> d = CHR ''-'' then ds else cs)))"

text \<open>
  The lexer. After a string, a number or a keyword it skips the characters of that token
  (\<open>skip\<close> of them) and goes on.
\<close>

fun tokenize :: "nat \<Rightarrow> string \<Rightarrow> token list option" where
  "tokenize skip [] = Some []"
| "tokenize (Suc k) (c # cs) = tokenize k cs"
| "tokenize 0 (c # cs) =
    (if is_ws c then tokenize 0 cs
     else if c = CHR ''{'' then map_option (Cons TLBrace) (tokenize 0 cs)
     else if c = CHR ''}'' then map_option (Cons TRBrace) (tokenize 0 cs)
     else if c = CHR ''['' then map_option (Cons TLBrack) (tokenize 0 cs)
     else if c = CHR '']'' then map_option (Cons TRBrack) (tokenize 0 cs)
     else if c = CHR '':'' then map_option (Cons TColon) (tokenize 0 cs)
     else if c = CHR '','' then map_option (Cons TComma) (tokenize 0 cs)
     else if c = dquote then
       (case lex_string [] 0 cs of
          None \<Rightarrow> None
        | Some (s, rest) \<Rightarrow> map_option (Cons (TStr s)) (tokenize (length cs - length rest) cs))
     else if is_number_char c then
       (if valid_number (c # takeWhile is_number_char cs)
        then map_option (Cons (TNum (c # takeWhile is_number_char cs)))
               (tokenize (length (takeWhile is_number_char cs)) cs)
        else None)
     else if c = CHR ''t'' then
       (if take 3 cs = ''rue'' then map_option (Cons TTrue) (tokenize 3 cs) else None)
     else if c = CHR ''f'' then
       (if take 4 cs = ''alse'' then map_option (Cons TFalse) (tokenize 4 cs) else None)
     else if c = CHR ''n'' then
       (if take 3 cs = ''ull'' then map_option (Cons TNull) (tokenize 3 cs) else None)
     else None)"

text \<open>
  An object lists its array-index keys first, in ascending order, then its other keys in
  the order they were created; defining a key again keeps its place and takes the new
  value.
\<close>

definition index_value :: "string \<Rightarrow> int" where
  "index_value k = foldl (\<lambda>n c. 10 * n + (of_char c - 48)) 0 k"

definition is_array_index :: "string \<Rightarrow> bool" where
  "is_array_index k =
    (digits1 k \<and> (k = ''0'' \<or> hd k \<noteq> CHR ''0'') \<and> index_value k < 4294967295)"

fun insert_index :: "string \<Rightarrow> json \<Rightarrow> (string \<times> json) list \<Rightarrow> (string \<times> json) list" where
  "insert_index k v [] = [(k, v)]"
| "insert_index k v ((k', v') # rest) =
    (if is_array_index k' \<and> index_value k' < index_value k
     then (k', v') # insert_index k v rest
     else (k, v) # (k', v') # rest)"

definition define_property :: "(string \<times> json) list \<Rightarrow> string \<Rightarrow> json \<Rightarrow> (string \<times> json) list" where
  "define_property kvs k v =
    (if k \<in> fst ` set kvs then map (\<lambda>(k', v'). if k' = k then (k', v) else (k', v')) kvs
     else if is_array_index k then insert_index k v kvs
     else kvs @ [(k, v)])"

text \<open>
  The parser's stack: an open array with its elements so far, an open object with its
  members so far, an open object whose next member has its key and waits for the value.
\<close>

datatype frame =
    FArr "json list"
  | FObj "(string \<times> json) list"
  | FKey "(string \<times> json) list" string

datatype phase = Value | ValueOrClose | KeyOrClose | Key | Colon | After | Done json

fun deliver :: "json \<Rightarrow> frame list \<Rightarrow> (frame list \<times> phase) option" where
  "deliver v [] = Some ([], Done v)"
| "deliver v (FArr xs # stk) = Some (FArr (xs @ [v]) # stk, After)"
| "deliver v (FKey kvs k # stk) = Some (FObj (define_property kvs k v) # stk, After)"
| "deliver v (FObj kvs # stk) = None"

fun open_value :: "frame list \<Rightarrow> token \<Rightarrow> (frame list \<times> phase) option" where
  "open_value stk TLBrack = Some (FArr [] # stk, ValueOrClose)"
| "open_value stk TLBrace = Some (FObj [] # stk, KeyOrClose)"
| "open_value stk (TStr s) = deliver (JStr s) stk"
| "open_value stk (TNum n) = deliver (JNum n) stk"
| "open_value stk TTrue = deliver (JBool True) stk"
| "open_value stk TFalse = deliver (JBool False) stk"
| "open_value stk TNull = deliver JNull stk"
| "open_value stk t = None"

fun close_frame :: "frame list \<Rightarrow> token \<Rightarrow> (frame list \<times> phase) option" where
  "close_frame (FArr xs # stk) TRBrack = deliver (JArr xs) stk"
| "close_frame (FObj kvs # stk) TRBrace = deliver (JObj kvs) stk"
| "close_frame stk t = None"

fun set_key :: "frame list \<Rightarrow> token \<Rightarrow> (frame list \<times> phase) option" where
  "set_key (FObj kvs # stk) (TStr k) = Some (FKey kvs k # stk, Colon)"
| "set_key stk t = None"

fun next_item :: "frame list \<Rightarrow> (frame list \<times> phase) option" where
  "next_item (FArr xs # stk) = Some (FArr xs # stk, Value)"
| "next_item (FObj kvs # stk) = Some (FObj kvs # stk, Key)"
| "next_item stk = None"

fun parse_step :: "frame list \<times> phase \<Rightarrow> token \<Rightarrow> (frame list \<times> phase) option" where
  "parse_step (stk, Value) t = open_value stk t"
| "parse_step (stk, ValueOrClose) t = (if t = TRBrack then close_frame stk t else open_value stk t)"
| "parse_step (stk, KeyOrClose) t = (if t = TRBrace then close_frame stk t else set_key stk t)"
| "parse_step (stk, Key) t = set_key stk t"
| "parse_step (stk, Colon) t = (if t = TColon then Some (stk, Value) else None)"
| "parse_step (stk, After) t = (if t = TComma then next_item stk else close_frame stk t)"
| "parse_step (stk, Done v) t = None"

fun parse_tokens :: "frame list \<times> phase \<Rightarrow> token list \<Rightarrow> (frame list \<times> phase) option" where
  "parse_tokens st [] = Some st"
| "parse_tokens st (t # ts) =
    (case parse_step st t of None \<Rightarrow> None | Some st' \<Rightarrow> parse_tokens st' ts)"

definition parse_json :: "string \<Rightarrow> json option" where
  "parse_json text =
    (case tokenize 0 text of
       None \<Rightarrow> None
     | Some ts \<Rightarrow>
         (case parse_tokens ([], Value) ts of
            Some ([], Done v) \<Rightarrow> Some v
          | _ \<Rightarrow> None))"

definition JSON_parse :: "string \<Rightarrow> 'x exn + json" where
  "JSON_parse text = (case parse_json text of None \<Rightarrow> Inl SyntaxError | Some v \<Rightarrow> Inr v)"

text \<open>The function \<^verbatim>\<open>replaceKeys\<close> of the source, lines 47 to 51.\<close>

definition replaceKeys :: "json \<Rightarrow> 'x exn + json" where
  "replaceKeys jsonObj =
    (let jsonString = JSON_stringify jsonObj;
         jsonString = replace_all re_ns_digit [dquote]
                        (replace_all re_ns3_Location ([dquote] @ ''locations'' @ [dquote]) jsonString)
     in JSON_parse jsonString)"

section \<open>Computations that may throw and may touch global state\<close>

text \<open>
  The constructors of \<^verbatim>\<open>openraildata-common\<close> are external code: a call may throw and
  may read or write state outside the classifier. A computation takes the global state
  and returns its outcome with the state it leaves.
\<close>

type_synonym ('g, 'x, 'a) js = "'g \<Rightarrow> ('x exn + 'a) \<times> 'g"

definition ret :: "'a \<Rightarrow> ('g, 'x, 'a) js" where
  "ret a g = (Inr a, g)"

definition pure_step :: "'x exn + 'a \<Rightarrow> ('g, 'x, 'a) js" where
  "pure_step r g = (r, g)"

definition bind :: "('g, 'x, 'a) js \<Rightarrow> ('a \<Rightarrow> ('g, 'x, 'b) js) \<Rightarrow> ('g, 'x, 'b) js" where
  "bind m f g = (case m g of (Inl e, g') \<Rightarrow> (Inl e, g') | (Inr a, g') \<Rightarrow> f a g')"

text \<open>
  The five constructors, taken as parameters: each gets the sub-structure it is applied
  to and the global state, and returns the domain object or what it throws.
\<close>

record ('g, 'x, 'd) common =
  TrainStatus :: "jsval \<Rightarrow> 'g \<Rightarrow> ('x + 'd) \<times> 'g"
  Schedule :: "jsval \<Rightarrow> 'g \<Rightarrow> ('x + 'd) \<times> 'g"
  Association :: "jsval \<Rightarrow> 'g \<Rightarrow> ('x + 'd) \<times> 'g"
  TrainOrder :: "jsval \<Rightarrow> 'g \<Rightarrow> ('x + 'd) \<times> 'g"
  StationMessage :: "jsval \<Rightarrow> 'g \<Rightarrow> ('x + 'd) \<times> 'g"

definition new :: "(jsval \<Rightarrow> 'g \<Rightarrow> ('x + 'd) \<times> 'g) \<Rightarrow> jsval \<Rightarrow> ('g, 'x, 'd) js" where
  "new ctor v g = (case ctor v g of (Inl x, g') \<Rightarrow> (Inl (Thrown x), g') | (Inr d, g') \<Rightarrow> (Inr d, g'))"

section \<open>The classifier: getMessage\<close>

text \<open>
  A payload is either an object literal built by the classifier, whose fields are values
  read from the record or a domain object, or the record itself.
\<close>

datatype 'd field = FVal jsval | FDomain 'd

datatype 'd payload = Fields "(string \<times> 'd field) list" | Record json

text \<open>
  \<^verbatim>\<open>type\<close> is \<^verbatim>\<open>message.headers.FilterHeaderLevel\<close>: a string, or \<^verbatim>\<open>undefined\<close> (None)
  when the header is absent; \<^verbatim>\<open>===\<close> against a string literal is then false. The fields
  of each object literal are evaluated in the order they are written.
\<close>

definition getMessage ::
  "('g, 'x, 'd) common \<Rightarrow> string option \<Rightarrow> json \<Rightarrow> ('g, 'x, string \<times> 'd payload) js" where
  "getMessage common type messageJSON =
    (if type = Some ''TRAINSTATUS,'' then
       bind (pure_step (path (Val messageJSON) [''Pport'', ''ts''])) (\<lambda>ts.
       bind (pure_step (path (Val messageJSON) [''Pport'', ''uR'', ''TS''])) (\<lambda>arg.
       bind (new (TrainStatus common) arg) (\<lambda>trainStatus.
       bind (pure_step (path (Val messageJSON) [''Pport'', ''uR'', ''updateOrigin''])) (\<lambda>origin.
       ret (''trainStatus'', Fields [
         (''ts'', FVal ts),
         (''trainStatus'', FDomain trainStatus),
         (''origin'', FVal origin)])))))
     else if type = Some ''SCHEDULE,'' then
       bind (pure_step (path (Val messageJSON) [''Pport'', ''uR'', ''requestID''])) (\<lambda>id.
       bind (pure_step (path (Val messageJSON) [''Pport'', ''ts''])) (\<lambda>ts.
       bind (pure_step (path (Val messageJSON) [''Pport'', ''uR'', ''schedule''])) (\<lambda>arg.
       bind (new (Schedule common) arg) (\<lambda>schedule.
       bind (pure_step (path (Val messageJSON) [''Pport'', ''uR'', ''updateOrigin''])) (\<lambda>origin.
       bind (pure_step (path (Val messageJSON) [''Pport'', ''uR'', ''requestSource''])) (\<lambda>source.
       ret (''schedule'', Fields [
         (''id'', FVal id),
         (''ts'', FVal ts),
         (''schedule'', FDomain schedule),
         (''origin'', FVal origin),
         (''source'', FVal source)])))))))
     else if type = Some ''ASSOCIATION,'' then
       bind (pure_step (path (Val messageJSON) [''Pport'', ''uR'', ''requestID''])) (\<lambda>id.
       bind (pure_step (path (Val messageJSON) [''Pport'', ''ts''])) (\<lambda>ts.
       bind (pure_step (path (Val messageJSON) [''Pport'', ''uR'', ''association''])) (\<lambda>arg.
       bind (new (Association common) arg) (\<lambda>association.
       bind (pure_step (path (Val messageJSON) [''Pport'', ''uR'', ''updateOrigin''])) (\<lambda>origin.
       bind (pure_step (path (Val messageJSON) [''Pport'', ''uR'', ''requestSource''])) (\<lambda>source.
       ret (''association'', Fields [
         (''id'', FVal id),
         (''ts'', FVal ts),
         (''association'', FDomain association),
         (''origin'', FVal origin),
         (''source'', FVal source)])))))))
     else if type = Some ''TRAINORDER,'' then
       bind (pure_step (path (Val messageJSON) [''Pport'', ''uR'', ''requestID''])) (\<lambda>id.
       bind (pure_step (path (Val messageJSON) [''Pport'', ''ts''])) (\<lambda>ts.
       bind (pure_step (path (Val messageJSON) [''Pport'', ''uR'', ''trainOrder''])) (\<lambda>arg.
       bind (new (TrainOrder common) arg) (\<lambda>trainOrder.
       bind (pure_step (path (Val messageJSON) [''Pport'', ''uR'', ''updateOrigin''])) (\<lambda>origin.
       bind (pure_step (path (Val messageJSON) [''Pport'', ''uR'', ''requestSource''])) (\<lambda>source.
       ret (''trainOrder'', Fields [
         (''id'', FVal id),
         (''ts'', FVal ts),
         (''trainOrder'', FDomain trainOrder),
         (''origin'', FVal origin),
         (''source'', FVal source)])))))))
     else if type = Some ''STATIONMESSAGE,'' then
       bind (pure_step (path (Val messageJSON) [''Pport'', ''ts''])) (\<lambda>ts.
       bind (pure_step (path (Val messageJSON) [''Pport'', ''uR'', ''OW''])) (\<lambda>arg.
       bind (new (StationMessage common) arg) (\<lambda>stationMessage.
       bind (pure_step (path (Val messageJSON) [''Pport'', ''uR'', ''updateOrigin''])) (\<lambda>origin.
       ret (''stationMessage'', Fields [
         (''ts'', FVal ts),
         (''stationMessage'', FDomain stationMessage),
         (''origin'', FVal origin)])))))
     else ret (''unhandledMessage'', Record messageJSON))"

text \<open>The five literals that \<^verbatim>\<open>type\<close> is compared with; each ends with a comma.\<close>

definition recognised :: "string list" where
  "recognised =
    [''TRAINSTATUS,'', ''SCHEDULE,'', ''ASSOCIATION,'', ''TRAINORDER,'', ''STATIONMESSAGE,'']"

text \<open>The names of the events the classifier returns.\<close>

definition typed_events :: "string list" where
  "typed_events =
    [''trainStatus'', ''schedule'', ''association'', ''trainOrder'', ''stationMessage'',
     ''unhandledMessage'']"



section \<open>The stream decoder and the subscription callback of connect\<close>

text \<open>
  What \<^verbatim>\<open>this.emit\<close> is given after the event name: a payload, an error object, the
  headers of a message, the \<^verbatim>\<open>stack\<close> of a caught exception, a string.
\<close>

datatype ('x, 'd) arg =
    APayload "'d payload"
  | AError 'x
  | AHeaders "(string \<times> string) list"
  | AStack "'x exn"
  | AString string

type_synonym ('x, 'd) event = "string \<times> ('x, 'd) arg list"

text \<open>
  \<^verbatim>\<open>Darwin\<close> extends \<^verbatim>\<open>EventEmitter\<close> and registers no listener on itself; the listeners
  are the consumer's, a parameter: for each event name the listeners registered, in
  order. A listener is given the arguments of the event and the global state; it returns
  (None) or throws, and leaves a global state. \<^verbatim>\<open>emit\<close> calls the listeners of the event
  in order, and the first exception leaves \<^verbatim>\<open>emit\<close>; for the event \<^verbatim>\<open>error\<close> without a
  listener, \<^verbatim>\<open>emit\<close> throws the error object that is its first argument. The value of
  \<open>emit\<close> is what the call throws, with the global state it leaves.
\<close>

type_synonym ('g, 'x, 'd) listener = "('x, 'd) arg list \<Rightarrow> 'g \<Rightarrow> 'x option \<times> 'g"

type_synonym ('g, 'x, 'd) listeners = "string \<Rightarrow> ('g, 'x, 'd) listener list"

fun call_listeners ::
  "('g, 'x, 'd) listener list \<Rightarrow> ('x, 'd) arg list \<Rightarrow> 'g \<Rightarrow> 'x option \<times> 'g" where
  "call_listeners [] args g = (None, g)"
| "call_listeners (l # ls) args g =
     (case l args g of
        (Some x, g') \<Rightarrow> (Some x, g')
      | (None, g') \<Rightarrow> call_listeners ls args g')"

definition unhandled :: "('x, 'd) arg list \<Rightarrow> 'x exn" where
  "unhandled args = (case args of AError er # rest \<Rightarrow> Thrown er | _ \<Rightarrow> UnhandledError)"

definition emit ::
  "('g, 'x, 'd) listeners \<Rightarrow> string \<Rightarrow> ('x, 'd) arg list \<Rightarrow> 'g \<Rightarrow> 'x exn option \<times> 'g" where
  "emit listeners name args g =
    (case listeners name of
       [] \<Rightarrow> (if name = ''error'' then Some (unhandled args) else None, g)
     | l # ls \<Rightarrow>
         (case call_listeners (l # ls) args g of (thrown, g') \<Rightarrow> (map_option Thrown thrown, g')))"

text \<open>
  The calls that \<^verbatim>\<open>connect\<close> makes on the channel it creates: it registers the four
  listeners that forward \<^verbatim>\<open>idle\<close>, \<^verbatim>\<open>error\<close>, \<^verbatim>\<open>connecting\<close> and \<^verbatim>\<open>connect\<close> (lines 189 to
  215) and subscribes to the queue, once (line 217). A handler could call the channel
  too, so the calls on the channel are part of what a handler leaves.
\<close>

datatype channel_call = On string | Subscribe string

definition connect :: "string \<Rightarrow> channel_call list" where
  "connect queue =
    [On ''idle'', On ''error'', On ''connecting'', On ''connect'', Subscribe queue]"

text \<open>
  What running a handler leaves: the events given to \<^verbatim>\<open>emit\<close>, in order; the exception
  that left the handler (nothing in this program catches it, so nothing of the program
  runs after it); the global state; the calls made on the channel.
\<close>

record ('g, 'x, 'd) outcome =
  emitted :: "('x, 'd) event list"
  uncaught :: "'x exn option"
  glob :: 'g
  channel_calls :: "channel_call list"

definition and_then ::
  "('g, 'x, 'd) outcome \<Rightarrow> ('g \<Rightarrow> ('g, 'x, 'd) outcome) \<Rightarrow> ('g, 'x, 'd) outcome" where
  "and_then out k =
    (case uncaught out of
       Some e \<Rightarrow> out
     | None \<Rightarrow>
         (let out' = k (glob out)
          in out'\<lparr>emitted := emitted out @ emitted out',
                  channel_calls := channel_calls out @ channel_calls out'\<rparr>))"

text \<open>A handler that returns at once, one that throws, and one call of \<^verbatim>\<open>this.emit\<close>.\<close>

definition returns :: "'g \<Rightarrow> ('g, 'x, 'd) outcome" where
  "returns g = \<lparr>emitted = [], uncaught = None, glob = g, channel_calls = []\<rparr>"

definition throws :: "'x exn \<Rightarrow> 'g \<Rightarrow> ('g, 'x, 'd) outcome" where
  "throws e g = \<lparr>emitted = [], uncaught = Some e, glob = g, channel_calls = []\<rparr>"

definition this_emit ::
  "('g, 'x, 'd) listeners \<Rightarrow> string \<Rightarrow> ('x, 'd) arg list \<Rightarrow> 'g \<Rightarrow> ('g, 'x, 'd) outcome" where
  "this_emit listeners name args g =
    (case emit listeners name args g of
       (thrown, g') \<Rightarrow>
         \<lparr>emitted = [(name, args)], uncaught = thrown, glob = g', channel_calls = []\<rparr>)"

text \<open>
  The options passed to \<^verbatim>\<open>xml2json.toJson\<close>. The hook for \<^verbatim>\<open>trainId\<close> is
  \<^verbatim>\<open>value => String(value)\<close>; the converter gives it the text of the field, and
  \<^verbatim>\<open>String\<close> of a string is that string.
\<close>

record toJson_options =
  object :: bool
  coerce :: "string \<Rightarrow> (string \<Rightarrow> json) option"
  reversible :: bool

definition trainId_hook :: "string \<Rightarrow> json" where
  "trainId_hook text = JStr text"

definition toJson_opts :: toJson_options where
  "toJson_opts = \<lparr>object = True, coerce = [''trainId'' \<mapsto> trainId_hook], reversible = False\<rparr>"

text \<open>
  \<^verbatim>\<open>try { body } catch (e) { handler }\<close>: when an exception leaves the body, the handler
  runs on it, after what the body had done.
\<close>

definition try_catch ::
  "('g, 'x, 'd) outcome \<Rightarrow> ('x exn \<Rightarrow> 'g \<Rightarrow> ('g, 'x, 'd) outcome) \<Rightarrow> ('g, 'x, 'd) outcome" where
  "try_catch body handler =
    (case uncaught body of
       None \<Rightarrow> body
     | Some e \<Rightarrow> and_then (body\<lparr>uncaught := None\<rparr>) (handler e))"

text \<open>
  The events of the gunzip stream of one message, and its three handlers (lines 231 to
  258). \<^verbatim>\<open>buffer\<close> is the array of the chunks decoded so far; \<^verbatim>\<open>toJson\<close>, the XML
  converter, is a parameter: it returns the converted record or throws. In the handler
  of \<^verbatim>\<open>end\<close> the conversion and \<^verbatim>\<open>replaceKeys\<close> run before the \<^verbatim>\<open>try\<close> block (line 243);
  the block holds the call of \<^verbatim>\<open>getMessage\<close> and the \<^verbatim>\<open>emit\<close> of its result (line 252),
  and its handler emits \<^verbatim>\<open>messageErr\<close> (line 255).
\<close>

datatype 'x stream_event = Data string | StreamError 'x | End

definition on_error ::
  "('g, 'x, 'd) listeners \<Rightarrow> (string \<times> string) list \<Rightarrow> string list \<Rightarrow> 'x \<Rightarrow> 'g \<Rightarrow>
   ('g, 'x, 'd) outcome" where
  "on_error listeners headers buffer error g =
    (if length buffer > 0 then this_emit listeners ''error'' [AError error, AHeaders headers] g
     else returns g)"

definition on_data :: "string list \<Rightarrow> string \<Rightarrow> string list" where
  "on_data buffer data = buffer @ [data]"

definition on_end ::
  "('g, 'x, 'd) listeners \<Rightarrow> ('g, 'x, 'd) common \<Rightarrow> (string \<Rightarrow> toJson_options \<Rightarrow> 'x + json) \<Rightarrow>
   string option \<Rightarrow> string list \<Rightarrow> 'g \<Rightarrow> ('g, 'x, 'd) outcome" where
  "on_end listeners common toJson type buffer g =
    (let messageXML = concat buffer in
     case toJson messageXML toJson_opts of
       Inl x \<Rightarrow> throws (Thrown x) g
     | Inr converted \<Rightarrow>
         (case replaceKeys converted of
            Inl e \<Rightarrow> throws e g
          | Inr messageJSON \<Rightarrow>
              try_catch
                (case getMessage common type messageJSON g of
                   (Inl e, g') \<Rightarrow> throws e g'
                 | (Inr (name, payload), g') \<Rightarrow> this_emit listeners name [APayload payload] g')
                (\<lambda>messageErr.
                   this_emit listeners ''messageErr''
                     [AStack messageErr, AString (JSON_stringify messageJSON)])))"

text \<open>The handlers run on the events of the stream, in the order the events come.\<close>

fun decode ::
  "('g, 'x, 'd) listeners \<Rightarrow> ('g, 'x, 'd) common \<Rightarrow> (string \<Rightarrow> toJson_options \<Rightarrow> 'x + json) \<Rightarrow>
   string option \<Rightarrow> (string \<times> string) list \<Rightarrow> string list \<Rightarrow> 'x stream_event list \<Rightarrow> 'g \<Rightarrow>
   ('g, 'x, 'd) outcome" where
  "decode listeners common toJson type headers buffer [] g = returns g"
| "decode listeners common toJson type headers buffer (Data data # evs) g =
     decode listeners common toJson type headers (on_data buffer data) evs g"
| "decode listeners common toJson type headers buffer (StreamError error # evs) g =
     and_then (on_error listeners headers buffer error g)
       (decode listeners common toJson type headers buffer evs)"
| "decode listeners common toJson type headers buffer (End # evs) g =
     and_then (on_end listeners common toJson type buffer g)
       (decode listeners common toJson type headers buffer evs)"

text \<open>
  One call of the callback given to \<^verbatim>\<open>subscribe\<close> (lines 217 to 262): its argument
  \<^verbatim>\<open>err\<close> (None for \<^verbatim>\<open>null\<close>; an error object is truthy), the headers of the message,
  and the events its gunzip stream will fire. The message fires \<^verbatim>\<open>readable\<close> once, so
  it has one gunzip stream, whose buffer starts empty.
\<close>

record 'x delivery =
  err :: "'x option"
  headers :: "(string \<times> string) list"
  stream :: "'x stream_event list"

definition subscribe_callback ::
  "('g, 'x, 'd) listeners \<Rightarrow> ('g, 'x, 'd) common \<Rightarrow> (string \<Rightarrow> toJson_options \<Rightarrow> 'x + json) \<Rightarrow>
   'x delivery \<Rightarrow> 'g \<Rightarrow> ('g, 'x, 'd) outcome" where
  "subscribe_callback listeners common toJson d g =
    (case err d of
       Some e \<Rightarrow> this_emit listeners ''error'' [AError e] g
     | None \<Rightarrow>
         (let type = map_of (headers d) ''FilterHeaderLevel''
          in decode listeners common toJson type (headers d) [] (stream d) g))"

text \<open>The deliveries of a subscription, one after the other.\<close>

fun run_deliveries ::
  "('g, 'x, 'd) listeners \<Rightarrow> ('g, 'x, 'd) common \<Rightarrow> (string \<Rightarrow> toJson_options \<Rightarrow> 'x + json) \<Rightarrow>
   'x delivery list \<Rightarrow> 'g \<Rightarrow> ('g, 'x, 'd) outcome" where
  "run_deliveries listeners common toJson [] g = returns g"
| "run_deliveries listeners common toJson (d # ds) g =
     and_then (subscribe_callback listeners common toJson d g)
       (run_deliveries listeners common toJson ds)"

section \<open>The reconnect policy of connect\<close>

text \<open>The options given to \<^verbatim>\<open>stompit.ConnectFailover\<close> (lines 173 to 179).\<close>

record reconnect_options =
  initialReconnectDelay :: nat
  maxReconnectDelay :: nat
  useExponentialBackOff :: bool
  maxReconnects :: nat
  randomize :: bool

definition reconnectOptions :: reconnect_options where
  "reconnectOptions =
    \<lparr>initialReconnectDelay = 10, maxReconnectDelay = 30000, useExponentialBackOff = True,
     maxReconnects = 30, randomize = False\<rparr>"

text \<open>
  Modelled from the spec: the retry loop of the failover connection factory
  (\<^verbatim>\<open>stompit.ConnectFailover\<close>), which is not in the source. Section 4.4 has
  "exponential backoff starting at the policy's initial delay, doubling up to a maximum
  delay, without randomized jitter in the default configuration, capped at a maximum
  attempt count"; section 8 has "after N consecutive transport failures, the delay before
  attempt N+1 equals the configured backoff formula applied N times, capped at the
  configured maximum, and no further attempts occur after the configured maximum attempt
  count". \<open>jitter\<close> is the random amount a policy with jitter would add.
\<close>

definition backoff_formula :: "reconnect_options \<Rightarrow> nat \<Rightarrow> nat" where
  "backoff_formula opts delay = (if useExponentialBackOff opts then 2 * delay else delay)"

definition reconnect_delay :: "reconnect_options \<Rightarrow> nat \<Rightarrow> nat \<Rightarrow> nat" where
  "reconnect_delay opts jitter N =
    min ((backoff_formula opts ^^ N) (initialReconnectDelay opts)) (maxReconnectDelay opts)
    + (if randomize opts then jitter else 0)"

definition attempt_made :: "reconnect_options \<Rightarrow> nat \<Rightarrow> bool" where
  "attempt_made opts k = (k \<le> maxReconnects opts)"

section \<open>The coercion hook of the XML conversion\<close>

text \<open>
  Modelled from the spec: how the XML-to-structure primitive (\<^verbatim>\<open>xml2json\<close>), which is
  not in the source, uses the option \<^verbatim>\<open>coerce\<close>. Section 6 has "supports a configurable
  per-field coercion hook"; section 4.3 has "with string-coercion applied to any field
  literally named trainId". The text of a field goes to the hook registered under the
  name of the field, and to the converter's own coercion when there is none.
\<close>

definition coerce_field :: "toJson_options \<Rightarrow> (string \<Rightarrow> json) \<Rightarrow> string \<Rightarrow> string \<Rightarrow> json" where
  "coerce_field opts default_coercion name text =
    (case coerce opts name of Some hook \<Rightarrow> hook text | None \<Rightarrow> default_coercion text)"

section \<open>The transform as the specification words it\<close>

text \<open>
  Section 4.1 of the specification: a key that is the namespace-qualified Location marker
  becomes \<^verbatim>\<open>locations\<close>, any other key loses its prefix \<^verbatim>\<open>ns\<close>, digit, colon, and all
  other structure stays. This walk over the tree is what \<^verbatim>\<open>replaceKeys\<close> is compared
  with.
\<close>

definition spec_rename_key :: "string \<Rightarrow> string" where
  "spec_rename_key k =
    (if k = ''ns3:Location'' then ''locations''
     else if match_here (literal ''ns'' @ [is_digit] @ literal '':'') k then drop 4 k
     else k)"

fun spec_rename_keys :: "json \<Rightarrow> json" where
  "spec_rename_keys (JArr xs) = JArr (map spec_rename_keys xs)"
| "spec_rename_keys (JObj kvs) = JObj (map (\<lambda>(k, v). (spec_rename_key k, spec_rename_keys v)) kvs)"
| "spec_rename_keys v = v"

section \<open>Trees that the transform handles as the specification says\<close>

text \<open>
  A character that \<^verbatim>\<open>JSON.stringify\<close> prints as it is, and a string of such characters.
\<close>

definition plain_char :: "char \<Rightarrow> bool" where
  "plain_char c = (c \<noteq> dquote \<and> c \<noteq> backslash \<and> 32 \<le> (of_char c :: nat))"

definition plain :: "string \<Rightarrow> bool" where
  "plain s = list_all plain_char s"

text \<open>The text of a number: a JSON number, made of the characters of numbers.\<close>

definition number_text :: "string \<Rightarrow> bool" where
  "number_text n = (n \<noteq> [] \<and> list_all is_number_char n \<and> valid_number n)"

text \<open>
  A tree that \<^verbatim>\<open>JSON.parse\<close> gives back from its text as it was: numbers have the text of
  a number, strings and keys need no escape, and the keys of an object are distinct and
  none is an array index, so that the object lists them in the order they were written.
\<close>

fun canonical :: "json \<Rightarrow> bool" where
  "canonical (JNum n) = number_text n"
| "canonical (JStr s) = plain s"
| "canonical (JArr xs) = list_all canonical xs"
| "canonical (JObj kvs) =
     (list_all (\<lambda>(k, v). plain k \<and> \<not> is_array_index k \<and> canonical v) kvs \<and> distinct (map fst kvs))"
| "canonical v = True"

text \<open>The tokens of the text of a tree, and the tail of a joined list.\<close>

fun tokens :: "json \<Rightarrow> token list" where
  "tokens JNull = [TNull]"
| "tokens (JBool b) = [if b then TTrue else TFalse]"
| "tokens (JNum n) = [TNum n]"
| "tokens (JStr s) = [TStr s]"
| "tokens (JArr xs) = TLBrack # join [TComma] (map tokens xs) @ [TRBrack]"
| "tokens (JObj kvs) =
     TLBrace # join [TComma] (map (\<lambda>(k, v). TStr k # TColon # tokens v) kvs) @ [TRBrace]"

fun join_rest :: "'a list \<Rightarrow> 'a list list \<Rightarrow> 'a list" where
  "join_rest sep [] = []"
| "join_rest sep (x # xs) = sep @ x @ join_rest sep xs"

text \<open>
  What may follow a value in a text: a text before which a number token ends, the tokens
  of a text put after given tokens, and the text and tokens of one member of an object.
\<close>

definition ends_number :: "string \<Rightarrow> bool" where
  "ends_number rest = (case rest of [] \<Rightarrow> True | c # cs \<Rightarrow> \<not> is_number_char c)"

definition lexed :: "token list \<Rightarrow> string \<Rightarrow> token list option" where
  "lexed ts rest = (case tokenize 0 rest of None \<Rightarrow> None | Some ts' \<Rightarrow> Some (ts @ ts'))"

definition member_text :: "string \<times> json \<Rightarrow> string" where
  "member_text = (\<lambda>(k, v). quote k @ '':'' @ JSON_stringify v)"

definition member_tokens :: "string \<times> json \<Rightarrow> token list" where
  "member_tokens = (\<lambda>(k, v). TStr k # TColon # tokens v)"

text \<open>The parser after it has read a whole value.\<close>

definition delivered :: "json \<Rightarrow> frame list \<Rightarrow> token list \<Rightarrow> (frame list \<times> phase) option" where
  "delivered v stk ts = (case deliver v stk of None \<Rightarrow> None | Some st \<Rightarrow> parse_tokens st ts)"

text \<open>
  The two replacements as functions on one key: the Location marker becomes
  \<^verbatim>\<open>locations\<close>; a key that begins with \<^verbatim>\<open>ns\<close>, a digit and a colon loses these four
  characters. \<open>map_keys\<close> applies a function to every key of a tree.
\<close>

definition ns_prefixed :: "string \<Rightarrow> bool" where
  "ns_prefixed s = match_here (literal ''ns'' @ [is_digit] @ literal '':'') s"

definition rename_Location :: "string \<Rightarrow> string" where
  "rename_Location k = (if k = ''ns3:Location'' then ''locations'' else k)"

definition strip_prefix :: "string \<Rightarrow> string" where
  "strip_prefix k = (if ns_prefixed k then drop 4 k else k)"

fun map_keys :: "(string \<Rightarrow> string) \<Rightarrow> json \<Rightarrow> json" where
  "map_keys f (JArr xs) = JArr (map (map_keys f) xs)"
| "map_keys f (JObj kvs) = JObj (map (\<lambda>(k, v). (f k, map_keys f v)) kvs)"
| "map_keys f v = v"

text \<open>
  A tree on whose text the two replacements touch keys only: strings and keys need no
  escape, and no string value begins with \<^verbatim>\<open>ns\<close>, a digit and a colon. A text
  \<open>closes\<close> a string when the double quote before it cannot begin a match.
\<close>

fun rewritable :: "json \<Rightarrow> bool" where
  "rewritable (JNum n) = number_text n"
| "rewritable (JStr s) = (plain s \<and> \<not> ns_prefixed s)"
| "rewritable (JArr xs) = list_all rewritable xs"
| "rewritable (JObj kvs) = list_all (\<lambda>(k, v). plain k \<and> rewritable v) kvs"
| "rewritable v = True"

definition closes :: "string \<Rightarrow> bool" where
  "closes rest = (case rest of [] \<Rightarrow> True | c # cs \<Rightarrow> c \<noteq> CHR ''n'')"

section \<open>Example collaborators and messages\<close>

text \<open>
  A constructor that takes an object and throws on anything else, and never touches the
  global state.
\<close>

definition example_ctor :: "jsval \<Rightarrow> nat \<Rightarrow> (string + json) \<times> nat" where
  "example_ctor v g =
    (case v of
       Val (JObj kvs) \<Rightarrow> (Inr (JObj kvs), g)
     | _ \<Rightarrow> (Inl ''not an object'', g))"

definition example_common :: "(nat, string, json) common" where
  "example_common =
    \<lparr>TrainStatus = example_ctor, Schedule = example_ctor, Association = example_ctor,
     TrainOrder = example_ctor, StationMessage = example_ctor\<rparr>"

definition example_uR :: "(string \<times> json) list" where
  "example_uR =
    [(''updateOrigin'', JStr ''CIS''), (''requestID'', JStr ''0000000000001234''),
     (''requestSource'', JStr ''at01''),
     (''TS'', JObj [(''rid'', JStr ''201701011234567'')]),
     (''schedule'', JObj [(''trainId'', JStr ''0B00'')]),
     (''association'', JObj [(''tiploc'', JStr ''CREWE'')]),
     (''trainOrder'', JObj [(''tiploc'', JStr ''EUSTON'')]),
     (''OW'', JObj [(''id'', JStr ''7'')])]"

definition example_Pport :: "(string \<times> json) list" where
  "example_Pport = [(''ts'', JStr ''2017-01-01T12:00:00''), (''uR'', JObj example_uR)]"

definition example_record :: json where
  "example_record = JObj [(''Pport'', JObj example_Pport)]"

text \<open>
  An example converter, for the documents that are made of start tags, end tags and
  empty-element tags without attributes. On them it does what \<^verbatim>\<open>xml2json\<close> does with its
  expat parser: an element becomes a member of its parent, named by the tag, whose value
  is the object of its own children; a name that comes again under the same parent makes
  the member an array; an end tag that does not match the open element, an end tag with
  no open element and a second root element are errors of the document, and the
  converter throws \<^verbatim>\<open>There are errors in your xml file:\<close> with the parser's message; a
  text that stops before its elements are closed, or in the middle of a tag, is no error
  and gives what has been read. About a text with character data, attributes or any
  other markup the example says nothing: it throws a value of its own there, and no
  example below uses such a text.
\<close>

definition is_name_start :: "char \<Rightarrow> bool" where
  "is_name_start c =
    (let n = (of_char c :: nat) in
     (65 \<le> n \<and> n \<le> 90) \<or> (97 \<le> n \<and> n \<le> 122) \<or> c = CHR ''_'' \<or> c = CHR '':'')"

definition is_name_char :: "char \<Rightarrow> bool" where
  "is_name_char c = (is_name_start c \<or> is_digit c \<or> c = CHR ''.'' \<or> c = CHR ''-'')"

definition is_name :: "string \<Rightarrow> bool" where
  "is_name s = (case s of [] \<Rightarrow> False | c # cs \<Rightarrow> is_name_start c \<and> list_all is_name_char cs)"

datatype tag = StartTag string | EndTag string | EmptyTag string

definition read_tag :: "string \<Rightarrow> tag option" where
  "read_tag body =
    (case body of
       [] \<Rightarrow> None
     | c # cs \<Rightarrow>
         if c = CHR ''/'' then (if is_name cs then Some (EndTag cs) else None)
         else if last body = CHR ''/''
           then (if is_name (butlast body) then Some (EmptyTag (butlast body)) else None)
         else if is_name body then Some (StartTag body)
         else None)"

text \<open>
  The texts between the angle brackets, and the tag that the text stops in, if it stops
  in one.
\<close>

fun scan_tags :: "string option \<Rightarrow> string \<Rightarrow> (string list \<times> string option) option" where
  "scan_tags inside [] = Some ([], inside)"
| "scan_tags None (c # cs) = (if c = CHR ''<'' then scan_tags (Some []) cs else None)"
| "scan_tags (Some body) (c # cs) =
    (if c = CHR ''>'' then
       (case scan_tags None cs of
          None \<Rightarrow> None
        | Some (bodies, inside) \<Rightarrow> Some (body # bodies, inside))
     else if c = CHR ''<'' then None
     else scan_tags (Some (body @ [c])) cs)"

definition partial_tag :: "string option \<Rightarrow> bool" where
  "partial_tag inside =
    (case inside of
       None \<Rightarrow> True
     | Some body \<Rightarrow>
         (case body of
            [] \<Rightarrow> True
          | c # cs \<Rightarrow>
              (c = CHR ''/'' \<or> is_name_start c)
              \<and> list_all (\<lambda>c. is_name_char c \<or> c = CHR ''/'') cs))"

definition add_child :: "(string \<times> json) list \<Rightarrow> string \<Rightarrow> json \<Rightarrow> (string \<times> json) list" where
  "add_child members name v =
    (case map_of members name of
       None \<Rightarrow> members @ [(name, v)]
     | Some (JArr xs) \<Rightarrow>
         map (\<lambda>(k, w). if k = name then (k, JArr (xs @ [v])) else (k, w)) members
     | Some old \<Rightarrow>
         map (\<lambda>(k, w). if k = name then (k, JArr [old, v]) else (k, w)) members)"

definition xml_error :: "string \<Rightarrow> string" where
  "xml_error detail = ''There are errors in your xml file: '' @ detail"

text \<open>
  The open elements, innermost first, each with its name and the members read so far;
  the last is the document, whose one member is the root element.
\<close>

definition document :: "(string \<times> (string \<times> json) list) list" where
  "document = [([], [])]"

definition root_closed :: "(string \<times> (string \<times> json) list) list \<Rightarrow> bool" where
  "root_closed open_elements =
    (case open_elements of [(name, members)] \<Rightarrow> members \<noteq> [] | _ \<Rightarrow> False)"

fun build ::
  "(string \<times> (string \<times> json) list) list \<Rightarrow> tag list \<Rightarrow>
   string + (string \<times> (string \<times> json) list) list" where
  "build open_elements [] = Inr open_elements"
| "build open_elements (StartTag name # tags) =
    (if root_closed open_elements then Inl (xml_error ''junk after document element'')
     else build ((name, []) # open_elements) tags)"
| "build open_elements (EmptyTag name # tags) =
    (case open_elements of
       (parent, members) # rest \<Rightarrow>
         if root_closed open_elements then Inl (xml_error ''junk after document element'')
         else build ((parent, add_child members name (JObj [])) # rest) tags
     | [] \<Rightarrow> Inl (xml_error ''not well-formed (invalid token)''))"
| "build open_elements (EndTag name # tags) =
    (case open_elements of
       (current, members) # (parent, siblings) # rest \<Rightarrow>
         if current = name
         then build ((parent, add_child siblings name (JObj members)) # rest) tags
         else Inl (xml_error ''mismatched tag'')
     | _ \<Rightarrow> Inl (xml_error ''not well-formed (invalid token)''))"

fun close_all :: "(string \<times> (string \<times> json) list) list \<Rightarrow> (string \<times> json) list" where
  "close_all [] = []"
| "close_all [(name, members)] = members"
| "close_all ((current, members) # (parent, siblings) # rest) =
     close_all ((parent, add_child siblings current (JObj members)) # rest)"

definition example_toJson :: "string \<Rightarrow> toJson_options \<Rightarrow> string + json" where
  "example_toJson text opts =
    (case scan_tags None text of
       None \<Rightarrow> Inl ''beyond the example converter''
     | Some (bodies, inside) \<Rightarrow>
         (case those (map read_tag bodies) of
            None \<Rightarrow> Inl ''beyond the example converter''
          | Some tags \<Rightarrow>
              if \<not> partial_tag inside then Inl ''beyond the example converter''
              else
                (case build document tags of
                   Inl e \<Rightarrow> Inl e
                 | Inr open_elements \<Rightarrow> Inr (JObj (close_all open_elements)))))"

text \<open>
  Three consumers: one that has registered no listener; one that has a listener for
  every event, which returns; one whose listener of \<^verbatim>\<open>schedule\<close> throws.
\<close>

definition no_listeners :: "(nat, string, json) listeners" where
  "no_listeners name = []"

definition quiet_listeners :: "(nat, string, json) listeners" where
  "quiet_listeners name = [\<lambda>args g. (None, g)]"

definition failing_schedule_listener :: "(nat, string, json) listeners" where
  "failing_schedule_listener name =
    (if name = ''schedule'' then [\<lambda>args g. (Some ''listener failed'', g)]
     else [\<lambda>args g. (None, g)])"

text \<open>
  Messages: one whose stream ends after its chunks, one whose stream raises an error
  after them; a schedule message in two chunks, with its record and the event it gives;
  a message whose \<^verbatim>\<open>uR\<close> is empty; a message whose end tag does not match.
\<close>

definition message :: "string \<Rightarrow> string list \<Rightarrow> string delivery" where
  "message type chunks =
    \<lparr>err = None, headers = [(''FilterHeaderLevel'', type)], stream = map Data chunks @ [End]\<rparr>"

definition failing_message :: "string \<Rightarrow> string list \<Rightarrow> string \<Rightarrow> string delivery" where
  "failing_message type chunks e =
    \<lparr>err = None, headers = [(''FilterHeaderLevel'', type)],
     stream = map Data chunks @ [StreamError e]\<rparr>"

definition schedule_message :: "string delivery" where
  "schedule_message = message ''SCHEDULE,'' [''<Pport><uR><sched'', ''ule/></uR></Pport>'']"

definition schedule_record :: json where
  "schedule_record = JObj [(''Pport'', JObj [(''uR'', JObj [(''schedule'', JObj [])])])]"

definition schedule_event :: "(string, json) event" where
  "schedule_event =
    (''schedule'', [APayload (Fields [
       (''id'', FVal Undefined),
       (''ts'', FVal Undefined),
       (''schedule'', FDomain (JObj [])),
       (''origin'', FVal Undefined),
       (''source'', FVal Undefined)])])"

definition empty_uR_message :: "string delivery" where
  "empty_uR_message = message ''SCHEDULE,'' [''<Pport><uR/>'', ''</Pport>'']"

definition empty_uR_record :: json where
  "empty_uR_record = JObj [(''Pport'', JObj [(''uR'', JObj [])])]"

definition mismatched_message :: "string delivery" where
  "mismatched_message = message ''SCHEDULE,'' [''<Pport><uR>'', ''</Pport>'']"

section \<open>Lemmas on the building blocks\<close>

lemma getMessage_unrecognised:
  "type \<notin> Some ` set recognised \<Longrightarrow>
   getMessage common type messageJSON g = (Inr (''unhandledMessage'', Record messageJSON), g)"
  by (simp add: getMessage_def recognised_def ret_def)

lemma path_Pport:
  "map_of props ''Pport'' = Some (JObj pp) \<Longrightarrow>
   path (Val (JObj props)) [''Pport'', k] = Inr (own_property pp k)"
  by (simp add: own_property_def)

lemma path_Pport_uR:
  "map_of props ''Pport'' = Some (JObj pp) \<Longrightarrow> map_of pp ''uR'' = Some (JObj ur) \<Longrightarrow>
   path (Val (JObj props)) [''Pport'', ''uR'', k] = Inr (own_property ur k)"
  by (simp add: own_property_def)

lemma example_paths:
  "path (Val example_record) [''Pport'', ''ts''] = Inr (Val (JStr ''2017-01-01T12:00:00''))"
  "path (Val example_record) [''Pport'', ''uR'', ''updateOrigin''] = Inr (Val (JStr ''CIS''))"
  "path (Val example_record) [''Pport'', ''uR'', ''requestID''] = Inr (Val (JStr ''0000000000001234''))"
  "path (Val example_record) [''Pport'', ''uR'', ''requestSource''] = Inr (Val (JStr ''at01''))"
  "path (Val example_record) [''Pport'', ''uR'', ''schedule''] = Inr (Val (JObj [(''trainId'', JStr ''0B00'')]))"
  by (simp_all add: example_record_def example_Pport_def example_uR_def own_property_def)






text \<open>The classifier returns one of six event names.\<close>

lemma bind_Inr:
  "bind m f g = (Inr r, g') \<Longrightarrow> \<exists>a g''. m g = (Inr a, g'') \<and> f a g'' = (Inr r, g')"
  by (auto simp: bind_def split: prod.splits sum.splits)

lemma getMessage_names:
  assumes "getMessage common type messageJSON g = (Inr (name, payload), g')"
  shows "name \<in> set typed_events"
  using assms unfolding getMessage_def typed_events_def
  by (auto split: if_splits dest!: bind_Inr simp: ret_def)

text \<open>Running \<^verbatim>\<open>replaceKeys\<close> on the example records.\<close>

lemma replaceKeys_parse:
  "parse_json (replace_all re_ns_digit [dquote]
     (replace_all re_ns3_Location ([dquote] @ ''locations'' @ [dquote]) (JSON_stringify v))) = Some w
   \<Longrightarrow> replaceKeys v = Inr w"
  by (simp add: replaceKeys_def JSON_parse_def)

lemma replaceKeys_example_empty_uR:
  "replaceKeys (JObj [(''Pport'', JObj [(''uR'', JObj [])])]) =
     Inr (JObj [(''Pport'', JObj [(''uR'', JObj [])])])"
  by (rule replaceKeys_parse) code_simp

lemma replaceKeys_example_schedule:
  "replaceKeys (JObj [(''Pport'', JObj [(''uR'', JObj [(''schedule'', JObj [])])])]) =
     Inr (JObj [(''Pport'', JObj [(''uR'', JObj [(''schedule'', JObj [])])])])"
  by (rule replaceKeys_parse) code_simp

lemma replaceKeys_example_namespaces:
  "replaceKeys (JObj [(''ns2:a'', JObj [(''ns3:Location'', JObj [])])]) =
     Inr (JObj [(''a'', JObj [(''locations'', JObj [])])])"
  by (rule replaceKeys_parse) code_simp

text \<open>Sequencing of handlers.\<close>

lemma and_then_returns: "and_then out returns = out"
  by (cases out) (simp add: and_then_def returns_def split: option.split)

lemma and_then_ok:
  "and_then \<lparr>emitted = evs, uncaught = None, glob = g, channel_calls = cs\<rparr> k =
   (k g)\<lparr>emitted := evs @ emitted (k g), channel_calls := cs @ channel_calls (k g)\<rparr>"
  by (simp add: and_then_def Let_def)

lemma and_then_uncaught:
  "and_then \<lparr>emitted = evs, uncaught = Some e, glob = g, channel_calls = cs\<rparr> k =
   \<lparr>emitted = evs, uncaught = Some e, glob = g, channel_calls = cs\<rparr>"
  by (simp add: and_then_def)

text \<open>The handlers of the stream.\<close>

lemma decode_chunks:
  "decode ls common toJson type hs buffer (map Data chunks @ evs) g =
   decode ls common toJson type hs (buffer @ chunks) evs g"
  by (induction chunks arbitrary: buffer) (simp_all add: on_data_def)

lemma decode_nil: "decode ls common toJson type hs buffer [] = returns"
  by (rule ext) simp

lemma run_deliveries_nil: "run_deliveries ls common toJson [] = returns"
  by (rule ext) simp

lemma callback_chunks_End:
  "err d = None \<Longrightarrow> stream d = map Data chunks @ [End] \<Longrightarrow>
   subscribe_callback ls common toJson d g =
     on_end ls common toJson (map_of (headers d) ''FilterHeaderLevel'') chunks g"
  by (simp add: subscribe_callback_def decode_chunks decode_nil and_then_returns)

lemma callback_chunks_StreamError:
  "err d = None \<Longrightarrow> stream d = map Data chunks @ [StreamError e] \<Longrightarrow>
   subscribe_callback ls common toJson d g = on_error ls (headers d) chunks e g"
  by (simp add: subscribe_callback_def decode_chunks decode_nil and_then_returns)

lemma this_emit_outcome:
  "this_emit ls name args g =
     \<lparr>emitted = [(name, args)], uncaught = fst (emit ls name args g),
      glob = snd (emit ls name args g), channel_calls = []\<rparr>"
  by (simp add: this_emit_def split: prod.split)

lemma on_error_outcome:
  "on_error ls hs chunks e g =
     (if chunks = [] then \<lparr>emitted = [], uncaught = None, glob = g, channel_calls = []\<rparr>
      else \<lparr>emitted = [(''error'', [AError e, AHeaders hs])],
            uncaught = fst (emit ls ''error'' [AError e, AHeaders hs] g),
            glob = snd (emit ls ''error'' [AError e, AHeaders hs] g), channel_calls = []\<rparr>)"
  by (simp add: on_error_def this_emit_outcome returns_def)

lemma on_end_conversion_throws:
  "toJson (concat buffer) toJson_opts = Inl x \<Longrightarrow>
   on_end ls common toJson type buffer g =
     \<lparr>emitted = [], uncaught = Some (Thrown x), glob = g, channel_calls = []\<rparr>"
  by (simp add: on_end_def throws_def)

lemma on_end_transform_throws:
  fixes common :: "('g, 'x, 'd) common"
  shows "toJson (concat buffer) toJson_opts = Inr converted \<Longrightarrow>
   replaceKeys converted = (Inl e :: 'x exn + json) \<Longrightarrow>
   on_end ls common toJson type buffer g =
     \<lparr>emitted = [], uncaught = Some e, glob = g, channel_calls = []\<rparr>"
  by (simp add: on_end_def throws_def)

lemma on_end_classified:
  fixes common :: "('g, 'x, 'd) common"
  shows "toJson (concat buffer) toJson_opts = Inr converted \<Longrightarrow>
   replaceKeys converted = (Inr messageJSON :: 'x exn + json) \<Longrightarrow>
   getMessage common type messageJSON g = (Inr (name, payload), g') \<Longrightarrow>
   emit ls name [APayload payload] g' = (None, h) \<Longrightarrow>
   on_end ls common toJson type buffer g =
     \<lparr>emitted = [(name, [APayload payload])], uncaught = None, glob = h, channel_calls = []\<rparr>"
  by (simp add: on_end_def try_catch_def this_emit_outcome)

lemma on_end_listener_throws:
  fixes common :: "('g, 'x, 'd) common"
  shows "toJson (concat buffer) toJson_opts = Inr converted \<Longrightarrow>
   replaceKeys converted = (Inr messageJSON :: 'x exn + json) \<Longrightarrow>
   getMessage common type messageJSON g = (Inr (name, payload), g') \<Longrightarrow>
   emit ls name [APayload payload] g' = (Some messageErr, h) \<Longrightarrow>
   on_end ls common toJson type buffer g =
     \<lparr>emitted = [(name, [APayload payload]),
                 (''messageErr'', [AStack messageErr, AString (JSON_stringify messageJSON)])],
      uncaught = fst (emit ls ''messageErr''
                   [AStack messageErr, AString (JSON_stringify messageJSON)] h),
      glob = snd (emit ls ''messageErr''
                   [AStack messageErr, AString (JSON_stringify messageJSON)] h),
      channel_calls = []\<rparr>"
  by (simp add: on_end_def try_catch_def this_emit_outcome and_then_def)

lemma on_end_classifier_throws:
  fixes common :: "('g, 'x, 'd) common"
  shows "toJson (concat buffer) toJson_opts = Inr converted \<Longrightarrow>
   replaceKeys converted = (Inr messageJSON :: 'x exn + json) \<Longrightarrow>
   getMessage common type messageJSON g = (Inl messageErr, g') \<Longrightarrow>
   on_end ls common toJson type buffer g =
     \<lparr>emitted = [(''messageErr'', [AStack messageErr, AString (JSON_stringify messageJSON)])],
      uncaught = fst (emit ls ''messageErr''
                   [AStack messageErr, AString (JSON_stringify messageJSON)] g'),
      glob = snd (emit ls ''messageErr''
                   [AStack messageErr, AString (JSON_stringify messageJSON)] g'),
      channel_calls = []\<rparr>"
  by (simp add: on_end_def try_catch_def this_emit_outcome throws_def and_then_def)

text \<open>The example listeners.\<close>

lemma emit_quiet_listeners: "emit quiet_listeners name args g = (None, g)"
  by (simp add: emit_def quiet_listeners_def)

lemma emit_no_listeners:
  "emit no_listeners name args g =
     (if name = ''error'' then Some (unhandled args) else None, g)"
  by (simp add: emit_def no_listeners_def)

lemma emit_failing_schedule_listener:
  "emit failing_schedule_listener name args g =
     (if name = ''schedule'' then Some (Thrown ''listener failed'') else None, g)"
  by (simp add: emit_def failing_schedule_listener_def)

text \<open>
  The example converter on the texts of the example messages, and on two texts that stop
  before the document is complete.
\<close>

lemma example_toJson_truncated:
  "example_toJson ''<Pport><uR>'' opts = Inr (JObj [(''Pport'', JObj [(''uR'', JObj [])])])"
  "example_toJson ''<Pport><uR'' opts = Inr (JObj [(''Pport'', JObj [])])"
  by code_simp+

lemma example_toJson_schedule:
  "example_toJson ''<Pport><uR><schedule/></uR></Pport>'' opts = Inr schedule_record"
  unfolding schedule_record_def by code_simp

lemma example_toJson_empty_uR:
  "example_toJson ''<Pport><uR/></Pport>'' opts = Inr empty_uR_record"
  unfolding empty_uR_record_def by code_simp

lemma example_toJson_mismatched:
  "example_toJson ''<Pport><uR></Pport>'' opts =
     Inl ''There are errors in your xml file: mismatched tag''"
  by code_simp

text \<open>The classifier on the records of the example messages.\<close>

lemma getMessage_schedule_record:
  "getMessage example_common (Some ''SCHEDULE,'') schedule_record g =
     (Inr (''schedule'', Fields [
         (''id'', FVal Undefined),
         (''ts'', FVal Undefined),
         (''schedule'', FDomain (JObj [])),
         (''origin'', FVal Undefined),
         (''source'', FVal Undefined)]), g)"
  by (simp add: getMessage_def bind_def ret_def pure_step_def new_def own_property_def
      example_common_def example_ctor_def schedule_record_def schedule_event_def)

lemma getMessage_empty_uR_record:
  "getMessage example_common (Some ''SCHEDULE,'') empty_uR_record g =
     (Inl (Thrown ''not an object''), g)"
  by (simp add: getMessage_def bind_def ret_def pure_step_def new_def own_property_def
      example_common_def example_ctor_def empty_uR_record_def)

text \<open>The example messages.\<close>

lemma example_schedule_message:
  assumes "emit ls ''schedule'' (snd schedule_event) g = (None, g)"
  shows "subscribe_callback ls example_common example_toJson schedule_message g =
     \<lparr>emitted = [schedule_event], uncaught = None, glob = g, channel_calls = []\<rparr>"
proof -
  have conv: "example_toJson (concat [''<Pport><uR><sched'', ''ule/></uR></Pport>'']) toJson_opts =
      Inr schedule_record"
    using example_toJson_schedule by simp
  have tr: "replaceKeys schedule_record = (Inr schedule_record :: string exn + json)"
    unfolding schedule_record_def by (rule replaceKeys_example_schedule)
  have "subscribe_callback ls example_common example_toJson schedule_message g =
      on_end ls example_common example_toJson (Some ''SCHEDULE,'')
        [''<Pport><uR><sched'', ''ule/></uR></Pport>''] g"
    unfolding schedule_message_def
    by (subst callback_chunks_End [where chunks = "[''<Pport><uR><sched'', ''ule/></uR></Pport>'']"])
       (simp_all add: message_def)
  also have "\<dots> = \<lparr>emitted = [schedule_event], uncaught = None, glob = g, channel_calls = []\<rparr>"
    using on_end_classified [where toJson = example_toJson and ls = ls
          and buffer = "[''<Pport><uR><sched'', ''ule/></uR></Pport>'']"
          and h = g, OF conv tr getMessage_schedule_record] assms
    by (simp add: schedule_event_def)
  finally show ?thesis .
qed

lemma example_failing_listener_message:
  "subscribe_callback failing_schedule_listener example_common example_toJson schedule_message g =
     \<lparr>emitted = [schedule_event,
        (''messageErr'',
          [AStack (Thrown ''listener failed''), AString (JSON_stringify schedule_record)])],
      uncaught = None, glob = g, channel_calls = []\<rparr>"
proof -
  have conv: "example_toJson (concat [''<Pport><uR><sched'', ''ule/></uR></Pport>'']) toJson_opts =
      Inr schedule_record"
    using example_toJson_schedule by simp
  have tr: "replaceKeys schedule_record = (Inr schedule_record :: string exn + json)"
    unfolding schedule_record_def by (rule replaceKeys_example_schedule)
  have "subscribe_callback failing_schedule_listener example_common example_toJson
        schedule_message g =
      on_end failing_schedule_listener example_common example_toJson (Some ''SCHEDULE,'')
        [''<Pport><uR><sched'', ''ule/></uR></Pport>''] g"
    unfolding schedule_message_def
    by (subst callback_chunks_End [where chunks = "[''<Pport><uR><sched'', ''ule/></uR></Pport>'']"])
       (simp_all add: message_def)
  also have "\<dots> = \<lparr>emitted = [schedule_event,
        (''messageErr'',
          [AStack (Thrown ''listener failed''), AString (JSON_stringify schedule_record)])],
      uncaught = None, glob = g, channel_calls = []\<rparr>"
    using on_end_listener_throws [where toJson = example_toJson
          and ls = failing_schedule_listener
          and buffer = "[''<Pport><uR><sched'', ''ule/></uR></Pport>'']"
          and messageErr = "Thrown ''listener failed''" and h = g,
          OF conv tr getMessage_schedule_record]
    by (simp add: schedule_event_def emit_failing_schedule_listener)
  finally show ?thesis .
qed

lemma example_empty_uR_message:
  "subscribe_callback ls example_common example_toJson empty_uR_message g =
     \<lparr>emitted = [(''messageErr'',
        [AStack (Thrown ''not an object''), AString (JSON_stringify empty_uR_record)])],
      uncaught = fst (emit ls ''messageErr''
        [AStack (Thrown ''not an object''), AString (JSON_stringify empty_uR_record)] g),
      glob = snd (emit ls ''messageErr''
        [AStack (Thrown ''not an object''), AString (JSON_stringify empty_uR_record)] g),
      channel_calls = []\<rparr>"
proof -
  have conv: "example_toJson (concat [''<Pport><uR/>'', ''</Pport>'']) toJson_opts =
      Inr empty_uR_record"
    using example_toJson_empty_uR by simp
  have tr: "replaceKeys empty_uR_record = (Inr empty_uR_record :: string exn + json)"
    unfolding empty_uR_record_def by (rule replaceKeys_example_empty_uR)
  have "subscribe_callback ls example_common example_toJson empty_uR_message g =
      on_end ls example_common example_toJson (Some ''SCHEDULE,'')
        [''<Pport><uR/>'', ''</Pport>''] g"
    unfolding empty_uR_message_def
    by (subst callback_chunks_End [where chunks = "[''<Pport><uR/>'', ''</Pport>'']"])
       (simp_all add: message_def)
  also have "\<dots> = \<lparr>emitted = [(''messageErr'',
        [AStack (Thrown ''not an object''), AString (JSON_stringify empty_uR_record)])],
      uncaught = fst (emit ls ''messageErr''
        [AStack (Thrown ''not an object''), AString (JSON_stringify empty_uR_record)] g),
      glob = snd (emit ls ''messageErr''
        [AStack (Thrown ''not an object''), AString (JSON_stringify empty_uR_record)] g),
      channel_calls = []\<rparr>"
    by (rule on_end_classifier_throws [where toJson = example_toJson
          and buffer = "[''<Pport><uR/>'', ''</Pport>'']",
          OF conv tr getMessage_empty_uR_record])
  finally show ?thesis .
qed

lemma example_mismatched_message:
  "subscribe_callback ls example_common example_toJson mismatched_message g =
     \<lparr>emitted = [],
      uncaught = Some (Thrown ''There are errors in your xml file: mismatched tag''),
      glob = g, channel_calls = []\<rparr>"
proof -
  have conv: "example_toJson (concat [''<Pport><uR>'', ''</Pport>'']) toJson_opts =
      Inl ''There are errors in your xml file: mismatched tag''"
    using example_toJson_mismatched by simp
  have "subscribe_callback ls example_common example_toJson mismatched_message g =
      on_end ls example_common example_toJson (Some ''SCHEDULE,'')
        [''<Pport><uR>'', ''</Pport>''] g"
    unfolding mismatched_message_def
    by (subst callback_chunks_End [where chunks = "[''<Pport><uR>'', ''</Pport>'']"])
       (simp_all add: message_def)
  also have "\<dots> = \<lparr>emitted = [],
      uncaught = Some (Thrown ''There are errors in your xml file: mismatched tag''),
      glob = g, channel_calls = []\<rparr>"
    using conv by (rule on_end_conversion_throws)
  finally show ?thesis .
qed

section \<open>The text of a tree, rewritten and parsed again\<close>

lemma join_Cons: "join sep (x # xs) = x @ join_rest sep xs"
  by (induction xs arbitrary: x) simp_all

lemma lex_skip: "tokenize (length u) (u @ rest) = tokenize 0 rest"
  by (induction u) simp_all

lemma lex_string_plain:
  "plain s \<Longrightarrow> lex_string acc 0 (s @ dquote # rest) = Some (acc @ s, rest)"
  by (induction s arbitrary: acc) (simp_all add: plain_def plain_char_def)

lemma dquote_class: "\<not> is_ws dquote" "dquote \<noteq> CHR ''{''" "dquote \<noteq> CHR ''}''"
  "dquote \<noteq> CHR ''[''" "dquote \<noteq> CHR '']''" "dquote \<noteq> CHR '':''" "dquote \<noteq> CHR '',''"
  by (simp_all add: dquote_def is_ws_def)

lemma lex_quote:
  assumes "plain s"
  shows "tokenize 0 (quote s @ rest) = map_option (Cons (TStr s)) (tokenize 0 rest)"
proof -
  have esc: "concat (map escape_char s) = s"
    using assms by (induction s) (auto simp: plain_def plain_char_def escape_char_def)
  have "tokenize 0 (dquote # s @ dquote # rest) =
      map_option (Cons (TStr s)) (tokenize (length (s @ [dquote])) ((s @ [dquote]) @ rest))"
    using assms by (simp add: dquote_class lex_string_plain)
  then show ?thesis
    by (simp only: lex_skip quote_def esc) simp
qed

lemma number_char_class:
  "is_number_char c \<Longrightarrow> \<not> is_ws c \<and> c \<noteq> CHR ''{'' \<and> c \<noteq> CHR ''}'' \<and> c \<noteq> CHR ''[''
     \<and> c \<noteq> CHR '']'' \<and> c \<noteq> CHR '':'' \<and> c \<noteq> CHR '','' \<and> c \<noteq> dquote"
  by (auto simp: is_number_char_def is_digit_def is_ws_def dquote_def)

lemma takeWhile_number:
  "list_all is_number_char n \<Longrightarrow> ends_number rest \<Longrightarrow> takeWhile is_number_char (n @ rest) = n"
  by (cases rest) (simp_all add: ends_number_def list_all_iff takeWhile_append2)

lemma lex_number:
  assumes "number_text n" and "ends_number rest"
  shows "tokenize 0 (n @ rest) = map_option (Cons (TNum n)) (tokenize 0 rest)"
proof -
  from assms(1) obtain c cs where n: "n = c # cs"
    by (cases n) (simp_all add: number_text_def)
  with assms(1) have c: "is_number_char c" and cs: "list_all is_number_char cs"
    and v: "valid_number (c # cs)"
    by (simp_all add: number_text_def)
  have tw: "takeWhile is_number_char (cs @ rest) = cs"
    using cs assms(2) by (rule takeWhile_number)
  have "tokenize 0 (c # cs @ rest) = map_option (Cons (TNum (c # cs))) (tokenize (length cs) (cs @ rest))"
    using number_char_class [OF c] c v by (simp add: tw)
  then show ?thesis
    by (simp add: n lex_skip)
qed

lemma lex_keywords:
  "tokenize 0 (''null'' @ rest) = map_option (Cons TNull) (tokenize 0 rest)"
  "tokenize 0 (''true'' @ rest) = map_option (Cons TTrue) (tokenize 0 rest)"
  "tokenize 0 (''false'' @ rest) = map_option (Cons TFalse) (tokenize 0 rest)"
  by (simp_all add: is_ws_def dquote_def is_number_char_def is_digit_def eval_nat_numeral)

lemma lex_punct:
  "tokenize 0 (CHR ''{'' # rest) = map_option (Cons TLBrace) (tokenize 0 rest)"
  "tokenize 0 (CHR ''}'' # rest) = map_option (Cons TRBrace) (tokenize 0 rest)"
  "tokenize 0 (CHR ''['' # rest) = map_option (Cons TLBrack) (tokenize 0 rest)"
  "tokenize 0 (CHR '']'' # rest) = map_option (Cons TRBrack) (tokenize 0 rest)"
  "tokenize 0 (CHR '':'' # rest) = map_option (Cons TColon) (tokenize 0 rest)"
  "tokenize 0 (CHR '','' # rest) = map_option (Cons TComma) (tokenize 0 rest)"
  by (simp_all add: is_ws_def)

lemma ends_number_punct:
  "ends_number (CHR '','' # rest)" "ends_number (CHR '']'' # rest)" "ends_number (CHR ''}'' # rest)"
  "ends_number []"
  by (simp_all add: ends_number_def is_number_char_def is_digit_def)

declare tokenize.simps [simp del]

lemma lexed_Nil [simp]: "lexed [] rest = tokenize 0 rest"
  by (simp add: lexed_def split: option.split)

lemma lexed_Cons: "map_option (Cons t) (lexed ts rest) = lexed (t # ts) rest"
  by (simp add: lexed_def split: option.split)

lemma lexed_one: "map_option (Cons t) (tokenize 0 rest) = lexed [t] rest"
  by (simp add: lexed_def split: option.split)

lemma lexed_append:
  "tokenize 0 rest = lexed ts2 rest' \<Longrightarrow> lexed ts1 rest = lexed (ts1 @ ts2) rest'"
  by (simp add: lexed_def split: option.split)

lemma ends_number_elems:
  "ends_number (join_rest '','' xs @ CHR '']'' # rest)"
  "ends_number (join_rest '','' xs @ CHR ''}'' # rest)"
  by (cases xs; simp add: ends_number_def is_number_char_def is_digit_def)+

lemma lex_elements:
  assumes "\<And>x rest. x \<in> set xs \<Longrightarrow> ends_number rest \<Longrightarrow>
             tokenize 0 (JSON_stringify x @ rest) = lexed (tokens x) rest"
  shows "tokenize 0 (join_rest '','' (map JSON_stringify xs) @ CHR '']'' # rest) =
         lexed (join_rest [TComma] (map tokens xs) @ [TRBrack]) rest"
  using assms
proof (induction xs)
  case Nil
  show ?case by (simp add: lex_punct lexed_one)
next
  case (Cons x xs)
  have "tokenize 0 (JSON_stringify x @ join_rest '','' (map JSON_stringify xs) @ CHR '']'' # rest) =
      lexed (tokens x) (join_rest '','' (map JSON_stringify xs) @ CHR '']'' # rest)"
    by (rule Cons.prems) (simp_all add: ends_number_elems)
  also have "\<dots> = lexed (tokens x @ join_rest [TComma] (map tokens xs) @ [TRBrack]) rest"
  proof (rule lexed_append, rule Cons.IH)
    fix y r assume "y \<in> set xs" and "ends_number r"
    then show "tokenize 0 (JSON_stringify y @ r) = lexed (tokens y) r"
      by (intro Cons.prems) simp_all
  qed
  finally show ?case
    by (simp add: lex_punct lexed_Cons)
qed

lemma lex_member:
  assumes "plain k" and "tokenize 0 (JSON_stringify v @ rest) = lexed (tokens v @ ts) rest'"
  shows "tokenize 0 (member_text (k, v) @ rest) = lexed (member_tokens (k, v) @ ts) rest'"
  using assms by (simp add: member_text_def member_tokens_def lex_quote lex_punct lexed_Cons)

lemma lex_members:
  assumes "\<And>k v rest. (k, v) \<in> set kvs \<Longrightarrow> ends_number rest \<Longrightarrow>
             tokenize 0 (JSON_stringify v @ rest) = lexed (tokens v) rest"
    and "\<And>k v. (k, v) \<in> set kvs \<Longrightarrow> plain k"
  shows "tokenize 0 (join_rest '','' (map member_text kvs) @ CHR ''}'' # rest) =
         lexed (join_rest [TComma] (map member_tokens kvs) @ [TRBrace]) rest"
  using assms
proof (induction kvs)
  case Nil
  show ?case by (simp add: lex_punct lexed_one)
next
  case (Cons kv kvs)
  obtain k v where kv: "kv = (k, v)" by (cases kv)
  let ?tail = "join_rest '','' (map member_text kvs) @ CHR ''}'' # rest"
  have k: "plain k" using Cons.prems(2) [of k v] kv by simp
  have "tokenize 0 (JSON_stringify v @ ?tail) = lexed (tokens v) ?tail"
    by (rule Cons.prems(1) [of k]) (simp_all add: kv ends_number_elems)
  also have "\<dots> = lexed (tokens v @ join_rest [TComma] (map member_tokens kvs) @ [TRBrace]) rest"
  proof (rule lexed_append, rule Cons.IH)
    fix l w r assume "(l, w) \<in> set kvs" and "ends_number r"
    then show "tokenize 0 (JSON_stringify w @ r) = lexed (tokens w) r"
      by (intro Cons.prems(1) [of l]) simp_all
  next
    fix l w assume "(l, w) \<in> set kvs"
    then show "plain l" by (intro Cons.prems(2) [of l w]) simp
  qed
  finally have "tokenize 0 (member_text (k, v) @ ?tail) =
      lexed (member_tokens (k, v) @ join_rest [TComma] (map member_tokens kvs) @ [TRBrace]) rest"
    by (rule lex_member [OF k])
  then show ?case
    by (simp add: kv lex_punct lexed_Cons)
qed

lemma stringify_JObj:
  "JSON_stringify (JObj kvs) = ''{'' @ join '','' (map member_text kvs) @ ''}''"
  by (simp add: member_text_def)

lemma tokens_JObj:
  "tokens (JObj kvs) = TLBrace # join [TComma] (map member_tokens kvs) @ [TRBrace]"
  by (simp add: member_tokens_def)

lemma lex_stringify:
  "canonical j \<Longrightarrow> ends_number rest \<Longrightarrow> tokenize 0 (JSON_stringify j @ rest) = lexed (tokens j) rest"
proof (induction j arbitrary: rest)
  case JNull
  show ?case using lex_keywords(1) [of rest] by (simp add: lexed_one)
next
  case (JBool b)
  show ?case using lex_keywords(2,3) [of rest] by (simp add: lexed_one)
next
  case (JNum n)
  then show ?case by (simp add: lex_number lexed_one)
next
  case (JStr s)
  then show ?case by (simp add: lex_quote lexed_one)
next
  case (JArr xs)
  show ?case
  proof (cases xs)
    case Nil
    then show ?thesis by (simp add: lex_punct lexed_one lexed_Cons)
  next
    case (Cons x xs')
    have ih: "tokenize 0 (JSON_stringify y @ r) = lexed (tokens y) r"
      if "y \<in> set xs" and "ends_number r" for y r
      using that JArr.prems(1) by (intro JArr.IH) (simp_all add: list_all_iff)
    have "tokenize 0 (JSON_stringify x @ join_rest '','' (map JSON_stringify xs') @ CHR '']'' # rest) =
      lexed (tokens x) (join_rest '','' (map JSON_stringify xs') @ CHR '']'' # rest)"
      by (rule ih) (simp_all add: Cons ends_number_elems)
    also have "\<dots> = lexed (tokens x @ join_rest [TComma] (map tokens xs') @ [TRBrack]) rest"
      by (rule lexed_append) (rule lex_elements, rule ih, simp_all add: Cons)
    finally show ?thesis
      by (simp add: Cons join_Cons lex_punct lexed_Cons)
  qed
next
  case (JObj kvs)
  show ?case
  proof (cases kvs)
    case Nil
    then show ?thesis by (simp add: lex_punct lexed_one lexed_Cons)
  next
    case (Cons kv kvs')
    obtain k v where kv: "kv = (k, v)" by (cases kv)
    have ih: "tokenize 0 (JSON_stringify w @ r) = lexed (tokens w) r"
      if "(l, w) \<in> set kvs" and "ends_number r" for l w r
    proof (rule JObj.IH)
      show "(l, w) \<in> set kvs" by (rule that)
      show "w \<in> Basic_BNFs.snds (l, w)" by simp
      show "canonical w" using that(1) JObj.prems(1) by (auto simp: list_all_iff)
      show "ends_number r" by (rule that)
    qed
    have pl: "plain l" if "(l, w) \<in> set kvs" for l w
      using that JObj.prems(1) by (auto simp: list_all_iff)
    let ?tail = "join_rest '','' (map member_text kvs') @ CHR ''}'' # rest"
    have k: "plain k" by (rule pl [of k v]) (simp add: Cons kv)
    have "tokenize 0 (JSON_stringify v @ ?tail) = lexed (tokens v) ?tail"
      by (rule ih [of k]) (simp_all add: Cons kv ends_number_elems)
    also have "\<dots> = lexed (tokens v @ join_rest [TComma] (map member_tokens kvs') @ [TRBrace]) rest"
    proof (rule lexed_append, rule lex_members)
      fix l w r assume "(l, w) \<in> set kvs'" and "ends_number r"
      then show "tokenize 0 (JSON_stringify w @ r) = lexed (tokens w) r"
        by (intro ih [of l]) (simp_all add: Cons)
    next
      fix l w assume "(l, w) \<in> set kvs'"
      then show "plain l" by (intro pl [of l w]) (simp add: Cons)
    qed
    finally have "tokenize 0 (member_text (k, v) @ ?tail) =
        lexed (member_tokens (k, v) @ join_rest [TComma] (map member_tokens kvs') @ [TRBrace]) rest"
      by (rule lex_member [OF k])
    then show ?thesis
      unfolding stringify_JObj tokens_JObj
      by (simp add: Cons kv join_Cons lex_punct lexed_Cons)
  qed
qed

lemma define_property_new:
  "k \<notin> fst ` set kvs \<Longrightarrow> \<not> is_array_index k \<Longrightarrow> define_property kvs k v = kvs @ [(k, v)]"
  by (simp add: define_property_def)

lemma delivered_FArr: "delivered v (FArr acc # stk) ts = parse_tokens (FArr (acc @ [v]) # stk, After) ts"
  by (simp add: delivered_def)

lemma delivered_FKey:
  "k \<notin> fst ` set acc \<Longrightarrow> \<not> is_array_index k \<Longrightarrow>
   delivered v (FKey acc k # stk) ts = parse_tokens (FObj (acc @ [(k, v)]) # stk, After) ts"
  by (simp add: delivered_def define_property_new)

lemma parse_scalar:
  assumes "ph = Value \<or> ph = ValueOrClose"
  shows "parse_tokens (stk, ph) (TNull # ts) = delivered JNull stk ts"
    "parse_tokens (stk, ph) (TTrue # ts) = delivered (JBool True) stk ts"
    "parse_tokens (stk, ph) (TFalse # ts) = delivered (JBool False) stk ts"
    "parse_tokens (stk, ph) (TNum n # ts) = delivered (JNum n) stk ts"
    "parse_tokens (stk, ph) (TStr s # ts) = delivered (JStr s) stk ts"
  using assms by (auto simp: delivered_def)

lemma parse_open:
  assumes "ph = Value \<or> ph = ValueOrClose"
  shows "parse_tokens (stk, ph) (TLBrack # ts) = parse_tokens (FArr [] # stk, ValueOrClose) ts"
    "parse_tokens (stk, ph) (TLBrace # ts) = parse_tokens (FObj [] # stk, KeyOrClose) ts"
  using assms by auto

lemma parse_elements:
  assumes "\<And>x stk ts. x \<in> set xs \<Longrightarrow> parse_tokens (stk, Value) (tokens x @ ts) = delivered x stk ts"
  shows "parse_tokens (FArr acc # stk, After) (join_rest [TComma] (map tokens xs) @ TRBrack # ts) =
         delivered (JArr (acc @ xs)) stk ts"
  using assms
proof (induction xs arbitrary: acc)
  case Nil
  show ?case by (simp add: delivered_def)
next
  case (Cons x xs)
  have "parse_tokens (FArr acc # stk, After)
      (join_rest [TComma] (map tokens (x # xs)) @ TRBrack # ts) =
      parse_tokens (FArr acc # stk, Value) (tokens x @ join_rest [TComma] (map tokens xs) @ TRBrack # ts)"
    by simp
  also have "\<dots> = parse_tokens (FArr (acc @ [x]) # stk, After)
      (join_rest [TComma] (map tokens xs) @ TRBrack # ts)"
    by (simp add: Cons.prems delivered_FArr)
  also have "\<dots> = delivered (JArr ((acc @ [x]) @ xs)) stk ts"
    by (rule Cons.IH) (simp add: Cons.prems)
  finally show ?case by simp
qed

lemma parse_members:
  assumes "\<And>k v stk ts. (k, v) \<in> set kvs \<Longrightarrow>
             parse_tokens (stk, Value) (tokens v @ ts) = delivered v stk ts"
    and "distinct (map fst kvs)" and "fst ` set kvs \<inter> fst ` set acc = {}"
    and "\<And>k v. (k, v) \<in> set kvs \<Longrightarrow> \<not> is_array_index k"
  shows "parse_tokens (FObj acc # stk, After)
           (join_rest [TComma] (map member_tokens kvs) @ TRBrace # ts) =
         delivered (JObj (acc @ kvs)) stk ts"
  using assms
proof (induction kvs arbitrary: acc)
  case Nil
  show ?case by (simp add: delivered_def)
next
  case (Cons kv kvs)
  obtain k v where kv: "kv = (k, v)" by (cases kv)
  have fresh: "k \<notin> fst ` set acc" and idx: "\<not> is_array_index k"
    using Cons.prems(3) Cons.prems(4) [of k v] kv by auto
  have "parse_tokens (FObj acc # stk, After)
      (join_rest [TComma] (map member_tokens (kv # kvs)) @ TRBrace # ts) =
      parse_tokens (FKey acc k # stk, Value)
        (tokens v @ join_rest [TComma] (map member_tokens kvs) @ TRBrace # ts)"
    by (simp add: kv member_tokens_def)
  also have "\<dots> = parse_tokens (FObj (acc @ [(k, v)]) # stk, After)
      (join_rest [TComma] (map member_tokens kvs) @ TRBrace # ts)"
    using Cons.prems(1) [of k v] by (simp add: kv delivered_FKey [OF fresh idx])
  also have "\<dots> = delivered (JObj ((acc @ [(k, v)]) @ kvs)) stk ts"
  proof (rule Cons.IH)
    show "distinct (map fst kvs)" using Cons.prems(2) by simp
    show "fst ` set kvs \<inter> fst ` set (acc @ [(k, v)]) = {}"
      using Cons.prems(2,3) by (auto simp: kv)
  next
    fix l w stk' ts' assume "(l, w) \<in> set kvs"
    then show "parse_tokens (stk', Value) (tokens w @ ts') = delivered w stk' ts'"
      by (intro Cons.prems(1) [of l]) simp
  next
    fix l w assume "(l, w) \<in> set kvs"
    then show "\<not> is_array_index l"
      by (intro Cons.prems(4) [of l w]) simp
  qed
  finally show ?case by (simp add: kv)
qed

lemma parse_tokens_value:
  "canonical j \<Longrightarrow> ph = Value \<or> ph = ValueOrClose \<Longrightarrow>
   parse_tokens (stk, ph) (tokens j @ ts) = delivered j stk ts"
proof (induction j arbitrary: stk ph ts)
  case JNull
  show ?case by (simp add: parse_scalar [OF JNull.prems(2)] del: parse_tokens.simps)
next
  case (JBool b)
  show ?case by (simp add: parse_scalar [OF JBool.prems(2)] del: parse_tokens.simps)
next
  case (JNum n)
  show ?case by (simp add: parse_scalar [OF JNum.prems(2)] del: parse_tokens.simps)
next
  case (JStr s)
  show ?case by (simp add: parse_scalar [OF JStr.prems(2)] del: parse_tokens.simps)
next
  case (JArr xs)
  have ih: "parse_tokens (stk, ph) (tokens x @ ts) = delivered x stk ts"
    if "x \<in> set xs" and "ph = Value \<or> ph = ValueOrClose" for x stk ph ts
    using that JArr.prems(1) by (intro JArr.IH) (simp_all add: list_all_iff)
  show ?case
  proof (cases xs)
    case Nil
    with JArr.prems(2) show ?thesis
      by (auto simp: delivered_def)
  next
    case (Cons x xs')
    have "parse_tokens (stk, ph) (tokens (JArr xs) @ ts) =
        parse_tokens (FArr [] # stk, ValueOrClose)
          (tokens x @ join_rest [TComma] (map tokens xs') @ TRBrack # ts)"
      using JArr.prems(2) by (simp add: Cons join_Cons parse_open del: parse_tokens.simps)
    also have "\<dots> = parse_tokens (FArr [x] # stk, After)
        (join_rest [TComma] (map tokens xs') @ TRBrack # ts)"
      by (simp add: ih Cons delivered_FArr del: parse_tokens.simps)
    also have "\<dots> = delivered (JArr ([x] @ xs')) stk ts"
      by (rule parse_elements) (simp add: ih Cons)
    finally show ?thesis by (simp add: Cons)
  qed
next
  case (JObj kvs)
  have ih: "parse_tokens (stk, ph) (tokens w @ ts) = delivered w stk ts"
    if "(l, w) \<in> set kvs" and "ph = Value \<or> ph = ValueOrClose" for l w stk ph ts
  proof (rule JObj.IH)
    show "(l, w) \<in> set kvs" by (rule that)
    show "w \<in> Basic_BNFs.snds (l, w)" by simp
    show "canonical w" using that(1) JObj.prems(1) by (auto simp: list_all_iff)
    show "ph = Value \<or> ph = ValueOrClose" by (rule that)
  qed
  have idx: "\<not> is_array_index l" if "(l, w) \<in> set kvs" for l w
    using that JObj.prems(1) by (auto simp: list_all_iff)
  have dist: "distinct (map fst kvs)"
    using JObj.prems(1) by simp
  show ?case
  proof (cases kvs)
    case Nil
    with JObj.prems(2) show ?thesis
      by (auto simp: delivered_def)
  next
    case (Cons kv kvs')
    obtain k v where kv: "kv = (k, v)" by (cases kv)
    have k: "\<not> is_array_index k" by (rule idx [of k v]) (simp add: Cons kv)
    have "parse_tokens (stk, ph) (tokens (JObj kvs) @ ts) =
        parse_tokens (FKey [] k # stk, Value)
          (tokens v @ join_rest [TComma] (map member_tokens kvs') @ TRBrace # ts)"
      using JObj.prems(2) unfolding tokens_JObj
      by (auto simp: Cons kv join_Cons member_tokens_def)
    also have "\<dots> = parse_tokens (FObj [(k, v)] # stk, After)
        (join_rest [TComma] (map member_tokens kvs') @ TRBrace # ts)"
      using ih [of k v] k by (simp add: Cons kv delivered_FKey del: parse_tokens.simps)
    also have "\<dots> = delivered (JObj ([(k, v)] @ kvs')) stk ts"
    proof (rule parse_members)
      show "distinct (map fst kvs')" using dist by (simp add: Cons)
      show "fst ` set kvs' \<inter> fst ` set [(k, v)] = {}"
        using dist by (auto simp: Cons kv)
    next
      fix l w stk' ts' assume "(l, w) \<in> set kvs'"
      then show "parse_tokens (stk', Value) (tokens w @ ts') = delivered w stk' ts'"
        by (intro ih [of l]) (simp_all add: Cons)
    next
      fix l w assume "(l, w) \<in> set kvs'"
      then show "\<not> is_array_index l"
        by (intro idx [of l w]) (simp add: Cons)
    qed
    finally show ?thesis by (simp add: Cons kv)
  qed
qed

lemma parse_json_stringify:
  assumes "canonical j"
  shows "parse_json (JSON_stringify j) = Some j"
proof -
  have "tokenize 0 (JSON_stringify j @ []) = lexed (tokens j) []"
    using assms by (rule lex_stringify) (simp add: ends_number_def)
  then have "tokenize 0 (JSON_stringify j) = Some (tokens j)"
    by (simp add: lexed_def tokenize.simps)
  moreover have "parse_tokens ([], Value) (tokens j @ []) = delivered j [] []"
    using assms by (rule parse_tokens_value) simp
  then have "parse_tokens ([], Value) (tokens j) = Some ([], Done j)"
    by (simp add: delivered_def)
  ultimately show ?thesis
    by (simp add: parse_json_def)
qed

lemma quote_plain: "plain s \<Longrightarrow> quote s = dquote # s @ [dquote]"
proof -
  assume "plain s"
  then have "concat (map escape_char s) = s"
    by (induction s) (auto simp: plain_def plain_char_def escape_char_def)
  then show ?thesis by (simp add: quote_def)
qed

lemma plain_no_dquote: "plain s \<Longrightarrow> dquote \<notin> set s"
  by (auto simp: plain_def plain_char_def list_all_iff)

lemma replace_skip: "replace_from re rep (length u) (u @ rest) = replace_from re rep 0 rest"
  by (induction u) simp_all

lemma replace_no_quote:
  assumes "\<And>c cs. match_here re (c # cs) \<Longrightarrow> c = dquote" and "dquote \<notin> set u"
  shows "replace_from re rep 0 (u @ rest) = u @ replace_from re rep 0 rest"
  using assms(2)
proof (induction u)
  case Nil
  show ?case by simp
next
  case (Cons c u)
  then have "\<not> match_here re (c # u @ rest)"
    using assms(1) [of c "u @ rest"] by auto
  with Cons show ?case by simp
qed

lemma re_starts_with_dquote:
  "match_here re_ns3_Location (c # cs) \<Longrightarrow> c = dquote"
  "match_here re_ns_digit (c # cs) \<Longrightarrow> c = dquote"
  by (simp_all add: re_ns3_Location_def re_ns_digit_def literal_def)

lemma re_closing_quote:
  "closes rest \<Longrightarrow> \<not> match_here re_ns3_Location (dquote # rest)"
  "closes rest \<Longrightarrow> \<not> match_here re_ns_digit (dquote # rest)"
  by (cases rest; simp add: re_ns3_Location_def re_ns_digit_def literal_def closes_def)+

lemma match_literal_quote:
  "dquote \<notin> set a \<Longrightarrow> dquote \<notin> set s \<Longrightarrow>
   match_here (literal (a @ [dquote])) (s @ dquote # rest) \<Longrightarrow> s = a"
proof (induction a arbitrary: s)
  case Nil
  then show ?case by (cases s) (simp_all add: literal_def)
next
  case (Cons c a)
  then show ?case by (cases s) (auto simp: literal_def)
qed

lemma match_literal_self: "match_here (literal a) (a @ rest)"
  by (induction a) (simp_all add: literal_def)

lemma match_Location:
  assumes "dquote \<notin> set s"
  shows "match_here re_ns3_Location (dquote # s @ dquote # rest) = (s = ''ns3:Location'')"
proof
  assume "match_here re_ns3_Location (dquote # s @ dquote # rest)"
  then have "match_here (literal (''ns3:Location'' @ [dquote])) (s @ dquote # rest)"
    by (simp add: re_ns3_Location_def literal_def)
  moreover have "dquote \<notin> set ''ns3:Location''"
    by (simp add: dquote_def)
  ultimately show "s = ''ns3:Location''"
    using assms by (intro match_literal_quote)
next
  assume "s = ''ns3:Location''"
  then show "match_here re_ns3_Location (dquote # s @ dquote # rest)"
    by (simp add: re_ns3_Location_def literal_def)
qed

lemma match_ns_digit:
  assumes "dquote \<notin> set s"
  shows "match_here re_ns_digit (dquote # s @ dquote # rest) = ns_prefixed s"
proof -
  have not_class: "dquote \<noteq> CHR ''n''" "dquote \<noteq> CHR ''s''" "\<not> is_digit dquote" "dquote \<noteq> CHR '':''"
    by (simp_all add: dquote_def is_digit_def)
  show ?thesis
  proof (cases s)
    case Nil
    then show ?thesis by (simp add: re_ns_digit_def ns_prefixed_def literal_def not_class)
  next
    case s1: (Cons a s1)
    show ?thesis
    proof (cases s1)
      case Nil
      with s1 show ?thesis by (simp add: re_ns_digit_def ns_prefixed_def literal_def not_class)
    next
      case s2: (Cons b s2)
      show ?thesis
      proof (cases s2)
        case Nil
        with s1 s2 show ?thesis by (simp add: re_ns_digit_def ns_prefixed_def literal_def not_class)
      next
        case s3: (Cons c s3)
        show ?thesis
        proof (cases s3)
          case Nil
          with s1 s2 s3 show ?thesis
            by (simp add: re_ns_digit_def ns_prefixed_def literal_def not_class)
        next
          case (Cons d s4)
          with s1 s2 s3 show ?thesis
            by (simp add: re_ns_digit_def ns_prefixed_def literal_def)
        qed
      qed
    qed
  qed
qed

lemma ns_prefixed_shape:
  assumes "ns_prefixed s"
  obtains d t where "s = CHR ''n'' # CHR ''s'' # d # CHR '':'' # t" and "is_digit d"
proof (cases s)
  case Nil
  with assms show ?thesis by (simp add: ns_prefixed_def literal_def)
next
  case s1: (Cons a s1)
  show ?thesis
  proof (cases s1)
    case Nil
    with assms s1 show ?thesis by (simp add: ns_prefixed_def literal_def)
  next
    case s2: (Cons b s2)
    show ?thesis
    proof (cases s2)
      case Nil
      with assms s1 s2 show ?thesis by (simp add: ns_prefixed_def literal_def)
    next
      case s3: (Cons c s3)
      show ?thesis
      proof (cases s3)
        case Nil
        with assms s1 s2 s3 show ?thesis by (simp add: ns_prefixed_def literal_def)
      next
        case (Cons d s4)
        with assms s1 s2 s3 that show ?thesis by (simp add: ns_prefixed_def literal_def)
      qed
    qed
  qed
qed

lemma replace_closing_quote:
  assumes "closes rest"
  shows "replace_from re_ns3_Location rep 0 (dquote # rest) = dquote # replace_from re_ns3_Location rep 0 rest"
    and "replace_from re_ns_digit rep 0 (dquote # rest) = dquote # replace_from re_ns_digit rep 0 rest"
  using re_closing_quote [OF assms] by simp_all

lemma replace_inside:
  assumes "dquote \<notin> set u"
  shows "replace_from re_ns3_Location rep 0 (u @ rest) = u @ replace_from re_ns3_Location rep 0 rest"
    and "replace_from re_ns_digit rep 0 (u @ rest) = u @ replace_from re_ns_digit rep 0 rest"
  by (rule replace_no_quote, erule re_starts_with_dquote, rule assms)+

lemma replace_quote_Location:
  assumes "plain s" and "closes rest"
  shows "replace_from re_ns3_Location (quote ''locations'') 0 (quote s @ rest) =
         quote (rename_Location s) @ replace_from re_ns3_Location (quote ''locations'') 0 rest"
proof -
  have s: "dquote \<notin> set s" using assms(1) by (rule plain_no_dquote)
  show ?thesis
  proof (cases "s = ''ns3:Location''")
    case True
    have len: "length re_ns3_Location - 1 = length (''ns3:Location'' @ [dquote])"
      by (simp add: re_ns3_Location_def literal_def)
    have m: "match_here re_ns3_Location (dquote # ''ns3:Location'' @ dquote # rest)"
      using match_Location [of "''ns3:Location''" rest] by (simp add: dquote_def)
    have "replace_from re_ns3_Location (quote ''locations'') 0
        (dquote # ''ns3:Location'' @ dquote # rest) =
        quote ''locations'' @ replace_from re_ns3_Location (quote ''locations'')
          (length (''ns3:Location'' @ [dquote])) ((''ns3:Location'' @ [dquote]) @ rest)"
      using m by (simp only: replace_from.simps len if_True append_assoc append_Cons append_Nil)
    also have "\<dots> = quote ''locations'' @ replace_from re_ns3_Location (quote ''locations'') 0 rest"
      by (simp only: replace_skip)
    finally show ?thesis
      using True assms(1) by (simp add: quote_plain rename_Location_def)
  next
    case False
    then have "\<not> match_here re_ns3_Location (dquote # s @ dquote # rest)"
      using match_Location [OF s] by simp
    then have "replace_from re_ns3_Location (quote ''locations'') 0 (dquote # s @ dquote # rest) =
        dquote # replace_from re_ns3_Location (quote ''locations'') 0 (s @ dquote # rest)"
      by simp
    also have "\<dots> = dquote # s @ replace_from re_ns3_Location (quote ''locations'') 0 (dquote # rest)"
      by (simp only: replace_inside [OF s])
    also have "\<dots> = dquote # s @ dquote # replace_from re_ns3_Location (quote ''locations'') 0 rest"
      by (simp only: replace_closing_quote [OF assms(2)])
    finally show ?thesis
      using False assms(1) by (simp add: quote_plain rename_Location_def)
  qed
qed

lemma replace_quote_prefix:
  assumes "plain s" and "closes rest"
  shows "replace_from re_ns_digit [dquote] 0 (quote s @ rest) =
         quote (strip_prefix s) @ replace_from re_ns_digit [dquote] 0 rest"
proof -
  have s: "dquote \<notin> set s" using assms(1) by (rule plain_no_dquote)
  show ?thesis
  proof (cases "ns_prefixed s")
    case True
    then obtain d t where st: "s = CHR ''n'' # CHR ''s'' # d # CHR '':'' # t" and "is_digit d"
      by (rule ns_prefixed_shape)
    have t: "dquote \<notin> set t" and pt: "plain t"
      using s assms(1) by (simp_all add: st plain_def)
    have len: "length re_ns_digit - 1 = length [CHR ''n'', CHR ''s'', d, CHR '':'']"
      by (simp add: re_ns_digit_def literal_def)
    have m: "match_here re_ns_digit (dquote # s @ dquote # rest)"
      using True match_ns_digit [OF s] by simp
    have "replace_from re_ns_digit [dquote] 0 (dquote # s @ dquote # rest) =
        [dquote] @ replace_from re_ns_digit [dquote] (length [CHR ''n'', CHR ''s'', d, CHR '':''])
          (s @ dquote # rest)"
      using m by (simp only: replace_from.simps len if_True)
    also have "\<dots> = dquote # replace_from re_ns_digit [dquote] (length [CHR ''n'', CHR ''s'', d, CHR '':''])
          ([CHR ''n'', CHR ''s'', d, CHR '':''] @ t @ dquote # rest)"
      by (simp add: st)
    also have "\<dots> = dquote # replace_from re_ns_digit [dquote] 0 (t @ dquote # rest)"
      by (simp only: replace_skip)
    also have "\<dots> = dquote # t @ replace_from re_ns_digit [dquote] 0 (dquote # rest)"
      by (simp only: replace_inside [OF t])
    also have "\<dots> = dquote # t @ dquote # replace_from re_ns_digit [dquote] 0 rest"
      by (simp only: replace_closing_quote [OF assms(2)])
    finally show ?thesis
      using True assms(1) pt by (simp add: quote_plain strip_prefix_def st)
  next
    case False
    then have "\<not> match_here re_ns_digit (dquote # s @ dquote # rest)"
      using match_ns_digit [OF s] by simp
    then have "replace_from re_ns_digit [dquote] 0 (dquote # s @ dquote # rest) =
        dquote # replace_from re_ns_digit [dquote] 0 (s @ dquote # rest)"
      by simp
    also have "\<dots> = dquote # s @ replace_from re_ns_digit [dquote] 0 (dquote # rest)"
      by (simp only: replace_inside [OF s])
    also have "\<dots> = dquote # s @ dquote # replace_from re_ns_digit [dquote] 0 rest"
      by (simp only: replace_closing_quote [OF assms(2)])
    finally show ?thesis
      using False assms(1) by (simp add: quote_plain strip_prefix_def)
  qed
qed

declare replace_from.simps [simp del]

lemma closes_punct:
  "closes (CHR '','' # rest)" "closes (CHR '']'' # rest)" "closes (CHR ''}'' # rest)"
  "closes (CHR '':'' # rest)" "closes []"
  by (simp_all add: closes_def)

lemma closes_join_rest:
  "closes (join_rest '','' xs @ CHR '']'' # rest)" "closes (join_rest '','' xs @ CHR ''}'' # rest)"
  by (cases xs; simp add: closes_def)+

lemma number_text_no_dquote: "number_text n \<Longrightarrow> dquote \<notin> set n"
  using number_char_class by (auto simp: number_text_def list_all_iff)

lemma replace_stringify:
  fixes re :: regex and rep :: string and f :: "string \<Rightarrow> string"
  assumes Q: "\<And>s rest. plain s \<Longrightarrow> closes rest \<Longrightarrow>
      replace_from re rep 0 (quote s @ rest) = quote (f s) @ replace_from re rep 0 rest"
    and N: "\<And>u rest. dquote \<notin> set u \<Longrightarrow>
      replace_from re rep 0 (u @ rest) = u @ replace_from re rep 0 rest"
    and F: "\<And>s. \<not> ns_prefixed s \<Longrightarrow> f s = s"
  shows "rewritable j \<Longrightarrow> closes rest \<Longrightarrow>
    replace_from re rep 0 (JSON_stringify j @ rest) =
    JSON_stringify (map_keys f j) @ replace_from re rep 0 rest"
proof (induction j arbitrary: rest)
  case JNull
  show ?case using N [of "''null''" rest] by (simp add: dquote_def)
next
  case (JBool b)
  show ?case using N [of "''true''" rest] N [of "''false''" rest] by (simp add: dquote_def)
next
  case (JNum n)
  then show ?case using N [of n rest] by (simp add: number_text_no_dquote)
next
  case (JStr s)
  then show ?case by (simp add: Q F)
next
  case (JArr xs)
  have ih: "replace_from re rep 0 (JSON_stringify x @ r) =
      JSON_stringify (map_keys f x) @ replace_from re rep 0 r"
    if "x \<in> set xs" and "closes r" for x r
    using that JArr.prems(1) by (intro JArr.IH) (simp_all add: list_all_iff)
  have p: "replace_from re rep 0 (c # r) = c # replace_from re rep 0 r" if "c \<noteq> dquote" for c r
    using N [of "[c]" r] that by simp
  have elems: "replace_from re rep 0 (join_rest '','' (map JSON_stringify ys) @ CHR '']'' # rest) =
      join_rest '','' (map JSON_stringify (map (map_keys f) ys)) @ CHR '']'' # replace_from re rep 0 rest"
    if "set ys \<subseteq> set xs" for ys
    using that
  proof (induction ys)
    case Nil
    show ?case by (simp add: p dquote_def)
  next
    case (Cons y ys)
    have "replace_from re rep 0 (JSON_stringify y @ join_rest '','' (map JSON_stringify ys) @ CHR '']'' # rest) =
        JSON_stringify (map_keys f y) @
        replace_from re rep 0 (join_rest '','' (map JSON_stringify ys) @ CHR '']'' # rest)"
      using Cons.prems by (intro ih) (simp_all add: closes_join_rest)
    with Cons show ?case by (simp add: p dquote_def)
  qed
  show ?case
  proof (cases xs)
    case Nil
    then show ?thesis by (simp add: p dquote_def)
  next
    case (Cons x xs')
    have "replace_from re rep 0 (JSON_stringify x @ join_rest '','' (map JSON_stringify xs') @ CHR '']'' # rest) =
        JSON_stringify (map_keys f x) @
        replace_from re rep 0 (join_rest '','' (map JSON_stringify xs') @ CHR '']'' # rest)"
      by (rule ih) (simp_all add: Cons closes_join_rest)
    moreover have "set xs' \<subseteq> set xs" by (auto simp: Cons)
    ultimately show ?thesis
      by (simp add: Cons join_Cons p dquote_def elems)
  qed
next
  case (JObj kvs)
  have ih: "replace_from re rep 0 (JSON_stringify w @ r) =
      JSON_stringify (map_keys f w) @ replace_from re rep 0 r"
    if "(l, w) \<in> set kvs" and "closes r" for l w r
  proof (rule JObj.IH)
    show "(l, w) \<in> set kvs" by (rule that)
    show "w \<in> Basic_BNFs.snds (l, w)" by simp
    show "rewritable w" using that(1) JObj.prems(1) by (auto simp: list_all_iff)
    show "closes r" by (rule that)
  qed
  have pl: "plain l" if "(l, w) \<in> set kvs" for l w
    using that JObj.prems(1) by (auto simp: list_all_iff)
  have p: "replace_from re rep 0 (c # r) = c # replace_from re rep 0 r" if "c \<noteq> dquote" for c r
    using N [of "[c]" r] that by simp
  have member: "replace_from re rep 0 (member_text (l, w) @ r) =
      member_text (f l, map_keys f w) @ replace_from re rep 0 r"
    if "(l, w) \<in> set kvs" and "closes r" for l w r
  proof -
    have "replace_from re rep 0 (quote l @ CHR '':'' # JSON_stringify w @ r) =
        quote (f l) @ replace_from re rep 0 (CHR '':'' # JSON_stringify w @ r)"
      by (rule Q) (simp_all add: pl [OF that(1)] closes_punct)
    also have "\<dots> = quote (f l) @ CHR '':'' # JSON_stringify (map_keys f w) @ replace_from re rep 0 r"
      by (simp add: p dquote_def ih [OF that])
    finally show ?thesis by (simp add: member_text_def)
  qed
  have members: "replace_from re rep 0 (join_rest '','' (map member_text ys) @ CHR ''}'' # rest) =
      join_rest '','' (map member_text (map (\<lambda>(k, v). (f k, map_keys f v)) ys))
        @ CHR ''}'' # replace_from re rep 0 rest"
    if "set ys \<subseteq> set kvs" for ys
    using that
  proof (induction ys)
    case Nil
    show ?case by (simp add: p dquote_def)
  next
    case (Cons y ys)
    obtain l w where y: "y = (l, w)" by (cases y)
    have "replace_from re rep 0 (member_text (l, w) @ join_rest '','' (map member_text ys) @ CHR ''}'' # rest) =
        member_text (f l, map_keys f w) @
        replace_from re rep 0 (join_rest '','' (map member_text ys) @ CHR ''}'' # rest)"
      using Cons.prems by (intro member) (simp_all add: y closes_join_rest)
    with Cons show ?case by (simp add: y p dquote_def)
  qed
  show ?case
  proof (cases kvs)
    case Nil
    then show ?thesis by (simp add: p dquote_def)
  next
    case (Cons kv kvs')
    obtain k v where kv: "kv = (k, v)" by (cases kv)
    have "replace_from re rep 0 (member_text (k, v) @ join_rest '','' (map member_text kvs') @ CHR ''}'' # rest) =
        member_text (f k, map_keys f v) @
        replace_from re rep 0 (join_rest '','' (map member_text kvs') @ CHR ''}'' # rest)"
      by (rule member) (simp_all add: Cons kv closes_join_rest)
    moreover have "set kvs' \<subseteq> set kvs" by (auto simp: Cons)
    ultimately show ?thesis
      unfolding map_keys.simps stringify_JObj
      by (simp add: Cons kv join_Cons p dquote_def members)
  qed
qed

lemma rewritable_map_keys:
  assumes "\<And>s. plain s \<Longrightarrow> plain (f s)"
  shows "rewritable j \<Longrightarrow> rewritable (map_keys f j)"
proof (induction j)
  case (JArr xs)
  then show ?case by (simp add: list_all_iff)
next
  case (JObj kvs)
  then show ?case by (fastforce simp: list_all_iff assms)
qed simp_all

lemma map_keys_comp: "map_keys g (map_keys f j) = map_keys (\<lambda>k. g (f k)) j"
  by (induction j) (auto simp: o_def)

lemma spec_rename_key_steps: "(\<lambda>k. strip_prefix (rename_Location k)) = spec_rename_key"
  by (rule ext)
     (simp add: spec_rename_key_def strip_prefix_def rename_Location_def ns_prefixed_def literal_def)

lemma spec_rename_keys_map: "spec_rename_keys j = map_keys spec_rename_key j"
  by (induction j) auto

section \<open>The classifier\<close>

text \<open>
  C1, as the code has it. The five recognised values of the type header are the literals
  that end with a comma: \<^verbatim>\<open>TRAINSTATUS,\<close> \<^verbatim>\<open>SCHEDULE,\<close> \<^verbatim>\<open>ASSOCIATION,\<close> \<^verbatim>\<open>TRAINORDER,\<close>
  and \<^verbatim>\<open>STATIONMESSAGE,\<close>. For each of them, for every record whose \<^verbatim>\<open>Pport\<close> and
  \<^verbatim>\<open>Pport.uR\<close> are objects, and whenever the constructor returns a domain object for its
  sub-structure, the classifier returns the event of that name, whose payload has exactly
  the listed fields in the listed order: \<^verbatim>\<open>ts\<close> is \<^verbatim>\<open>record.Pport.ts\<close>, \<^verbatim>\<open>origin\<close> is
  \<^verbatim>\<open>record.Pport.uR.updateOrigin\<close>, \<^verbatim>\<open>id\<close> is \<^verbatim>\<open>record.Pport.uR.requestID\<close>,
  \<^verbatim>\<open>source\<close> is \<^verbatim>\<open>record.Pport.uR.requestSource\<close>, and the domain field is what the
  constructor returned for \<^verbatim>\<open>TS\<close>, \<^verbatim>\<open>schedule\<close>, \<^verbatim>\<open>association\<close>, \<^verbatim>\<open>trainOrder\<close> or
  \<^verbatim>\<open>OW\<close>. For every other type header, also an absent one, it returns
  \<^verbatim>\<open>unhandledMessage\<close> with the record itself.
\<close>

theorem getMessage_recognised_types:
  assumes "map_of props ''Pport'' = Some (JObj pp)" and "map_of pp ''uR'' = Some (JObj ur)"
  shows
  "(TrainStatus common (own_property ur ''TS'') g = (Inr trainStatus, g1) \<longrightarrow>
      getMessage common (Some ''TRAINSTATUS,'') (JObj props) g =
        (Inr (''trainStatus'', Fields [
           (''ts'', FVal (own_property pp ''ts'')),
           (''trainStatus'', FDomain trainStatus),
           (''origin'', FVal (own_property ur ''updateOrigin''))]), g1))
   \<and> (Schedule common (own_property ur ''schedule'') g = (Inr schedule, g2) \<longrightarrow>
      getMessage common (Some ''SCHEDULE,'') (JObj props) g =
        (Inr (''schedule'', Fields [
           (''id'', FVal (own_property ur ''requestID'')),
           (''ts'', FVal (own_property pp ''ts'')),
           (''schedule'', FDomain schedule),
           (''origin'', FVal (own_property ur ''updateOrigin'')),
           (''source'', FVal (own_property ur ''requestSource''))]), g2))
   \<and> (Association common (own_property ur ''association'') g = (Inr association, g3) \<longrightarrow>
      getMessage common (Some ''ASSOCIATION,'') (JObj props) g =
        (Inr (''association'', Fields [
           (''id'', FVal (own_property ur ''requestID'')),
           (''ts'', FVal (own_property pp ''ts'')),
           (''association'', FDomain association),
           (''origin'', FVal (own_property ur ''updateOrigin'')),
           (''source'', FVal (own_property ur ''requestSource''))]), g3))
   \<and> (TrainOrder common (own_property ur ''trainOrder'') g = (Inr trainOrder, g4) \<longrightarrow>
      getMessage common (Some ''TRAINORDER,'') (JObj props) g =
        (Inr (''trainOrder'', Fields [
           (''id'', FVal (own_property ur ''requestID'')),
           (''ts'', FVal (own_property pp ''ts'')),
           (''trainOrder'', FDomain trainOrder),
           (''origin'', FVal (own_property ur ''updateOrigin'')),
           (''source'', FVal (own_property ur ''requestSource''))]), g4))
   \<and> (StationMessage common (own_property ur ''OW'') g = (Inr stationMessage, g5) \<longrightarrow>
      getMessage common (Some ''STATIONMESSAGE,'') (JObj props) g =
        (Inr (''stationMessage'', Fields [
           (''ts'', FVal (own_property pp ''ts'')),
           (''stationMessage'', FDomain stationMessage),
           (''origin'', FVal (own_property ur ''updateOrigin''))]), g5))
   \<and> (type \<notin> Some ` set recognised \<longrightarrow>
      getMessage common type (JObj props) g = (Inr (''unhandledMessage'', Record (JObj props)), g))"
proof -
  note p3 = path_Pport_uR [OF assms] and p2 = path_Pport [OF assms(1)]
  have a: "TrainStatus common (own_property ur ''TS'') g = (Inr trainStatus, g1) \<longrightarrow>
      getMessage common (Some ''TRAINSTATUS,'') (JObj props) g =
        (Inr (''trainStatus'', Fields [
           (''ts'', FVal (own_property pp ''ts'')),
           (''trainStatus'', FDomain trainStatus),
           (''origin'', FVal (own_property ur ''updateOrigin''))]), g1)"
    unfolding getMessage_def p3 p2 by (simp add: bind_def ret_def pure_step_def new_def)
  have b: "Schedule common (own_property ur ''schedule'') g = (Inr schedule, g2) \<longrightarrow>
      getMessage common (Some ''SCHEDULE,'') (JObj props) g =
        (Inr (''schedule'', Fields [
           (''id'', FVal (own_property ur ''requestID'')),
           (''ts'', FVal (own_property pp ''ts'')),
           (''schedule'', FDomain schedule),
           (''origin'', FVal (own_property ur ''updateOrigin'')),
           (''source'', FVal (own_property ur ''requestSource''))]), g2)"
    unfolding getMessage_def p3 p2 by (simp add: bind_def ret_def pure_step_def new_def)
  have c: "Association common (own_property ur ''association'') g = (Inr association, g3) \<longrightarrow>
      getMessage common (Some ''ASSOCIATION,'') (JObj props) g =
        (Inr (''association'', Fields [
           (''id'', FVal (own_property ur ''requestID'')),
           (''ts'', FVal (own_property pp ''ts'')),
           (''association'', FDomain association),
           (''origin'', FVal (own_property ur ''updateOrigin'')),
           (''source'', FVal (own_property ur ''requestSource''))]), g3)"
    unfolding getMessage_def p3 p2 by (simp add: bind_def ret_def pure_step_def new_def)
  have d: "TrainOrder common (own_property ur ''trainOrder'') g = (Inr trainOrder, g4) \<longrightarrow>
      getMessage common (Some ''TRAINORDER,'') (JObj props) g =
        (Inr (''trainOrder'', Fields [
           (''id'', FVal (own_property ur ''requestID'')),
           (''ts'', FVal (own_property pp ''ts'')),
           (''trainOrder'', FDomain trainOrder),
           (''origin'', FVal (own_property ur ''updateOrigin'')),
           (''source'', FVal (own_property ur ''requestSource''))]), g4)"
    unfolding getMessage_def p3 p2 by (simp add: bind_def ret_def pure_step_def new_def)
  have e: "StationMessage common (own_property ur ''OW'') g = (Inr stationMessage, g5) \<longrightarrow>
      getMessage common (Some ''STATIONMESSAGE,'') (JObj props) g =
        (Inr (''stationMessage'', Fields [
           (''ts'', FVal (own_property pp ''ts'')),
           (''stationMessage'', FDomain stationMessage),
           (''origin'', FVal (own_property ur ''updateOrigin''))]), g5)"
    unfolding getMessage_def p3 p2 by (simp add: bind_def ret_def pure_step_def new_def)
  have f: "type \<notin> Some ` set recognised \<longrightarrow>
      getMessage common type (JObj props) g = (Inr (''unhandledMessage'', Record (JObj props)), g)"
    by (simp add: getMessage_unrecognised)
  from a b c d e f show ?thesis by (intro conjI)
qed

theorem getMessage_recognised_types_witness:
  "getMessage example_common (Some ''TRAINSTATUS,'') example_record 0 =
     (Inr (''trainStatus'', Fields [
        (''ts'', FVal (Val (JStr ''2017-01-01T12:00:00''))),
        (''trainStatus'', FDomain (JObj [(''rid'', JStr ''201701011234567'')])),
        (''origin'', FVal (Val (JStr ''CIS'')))]), 0)
   \<and> getMessage example_common (Some ''SCHEDULE,'') example_record 0 =
     (Inr (''schedule'', Fields [
        (''id'', FVal (Val (JStr ''0000000000001234''))),
        (''ts'', FVal (Val (JStr ''2017-01-01T12:00:00''))),
        (''schedule'', FDomain (JObj [(''trainId'', JStr ''0B00'')])),
        (''origin'', FVal (Val (JStr ''CIS''))),
        (''source'', FVal (Val (JStr ''at01'')))]), 0)
   \<and> getMessage example_common (Some ''ASSOCIATION,'') example_record 0 =
     (Inr (''association'', Fields [
        (''id'', FVal (Val (JStr ''0000000000001234''))),
        (''ts'', FVal (Val (JStr ''2017-01-01T12:00:00''))),
        (''association'', FDomain (JObj [(''tiploc'', JStr ''CREWE'')])),
        (''origin'', FVal (Val (JStr ''CIS''))),
        (''source'', FVal (Val (JStr ''at01'')))]), 0)
   \<and> getMessage example_common (Some ''TRAINORDER,'') example_record 0 =
     (Inr (''trainOrder'', Fields [
        (''id'', FVal (Val (JStr ''0000000000001234''))),
        (''ts'', FVal (Val (JStr ''2017-01-01T12:00:00''))),
        (''trainOrder'', FDomain (JObj [(''tiploc'', JStr ''EUSTON'')])),
        (''origin'', FVal (Val (JStr ''CIS''))),
        (''source'', FVal (Val (JStr ''at01'')))]), 0)
   \<and> getMessage example_common (Some ''STATIONMESSAGE,'') example_record 0 =
     (Inr (''stationMessage'', Fields [
        (''ts'', FVal (Val (JStr ''2017-01-01T12:00:00''))),
        (''stationMessage'', FDomain (JObj [(''id'', JStr ''7'')])),
        (''origin'', FVal (Val (JStr ''CIS'')))]), 0)
   \<and> getMessage example_common (Some ''HEARTBEAT,'') example_record 0 =
     (Inr (''unhandledMessage'', Record example_record), 0)"
proof -
  have h1: "map_of [(''Pport'', JObj example_Pport)] ''Pport'' = Some (JObj example_Pport)"
    by simp
  have h2: "map_of example_Pport ''uR'' = Some (JObj example_uR)"
    by (simp add: example_Pport_def)
  show ?thesis
    using getMessage_recognised_types [OF h1 h2, of example_common
        0 "JObj [(''rid'', JStr ''201701011234567'')]" 0
        "JObj [(''trainId'', JStr ''0B00'')]" 0
        "JObj [(''tiploc'', JStr ''CREWE'')]" 0
        "JObj [(''tiploc'', JStr ''EUSTON'')]" 0
        "JObj [(''id'', JStr ''7'')]" 0
        "Some ''HEARTBEAT,''"]
    by (simp add: example_record_def example_Pport_def example_uR_def own_property_def
        example_common_def example_ctor_def recognised_def)
qed

text \<open>
  C1 as the specification words it fails: for the type header \<^verbatim>\<open>SCHEDULE\<close>, without
  the comma, and a record with every listed sub-structure, the classifier returns
  \<^verbatim>\<open>unhandledMessage\<close>, not \<^verbatim>\<open>schedule\<close>.
\<close>

theorem getMessage_token_without_comma:
  "getMessage example_common (Some ''SCHEDULE'') example_record 0 =
     (Inr (''unhandledMessage'', Record example_record), 0)
   \<and> Schedule example_common (Val (JObj [(''trainId'', JStr ''0B00'')])) 0 =
     (Inr (JObj [(''trainId'', JStr ''0B00'')]), 0)"
  by (simp add: getMessage_def ret_def example_common_def example_ctor_def)

text \<open>
  C10: for every type header that is none of the five literals ending with a comma, and
  for every record, also one without \<^verbatim>\<open>Pport\<close>, the classifier returns normally with
  \<^verbatim>\<open>unhandledMessage\<close> and the record unchanged, and leaves the global state as it was;
  so whenever the classifier throws, the type header is one of the five.
\<close>

theorem getMessage_unhandled_never_throws:
  "(type \<notin> Some ` set recognised \<longrightarrow>
      getMessage common type messageJSON g = (Inr (''unhandledMessage'', Record messageJSON), g))
   \<and> (fst (getMessage common type messageJSON g) = Inl e \<longrightarrow> type \<in> Some ` set recognised)"
proof (intro conjI impI)
  assume "type \<notin> Some ` set recognised"
  then show "getMessage common type messageJSON g =
      (Inr (''unhandledMessage'', Record messageJSON), g)"
    by (rule getMessage_unrecognised)
next
  assume thrown: "fst (getMessage common type messageJSON g) = Inl e"
  show "type \<in> Some ` set recognised"
  proof (rule ccontr)
    assume "type \<notin> Some ` set recognised"
    then have "getMessage common type messageJSON g =
        (Inr (''unhandledMessage'', Record messageJSON), g)"
      by (rule getMessage_unrecognised)
    with thrown show False by simp
  qed
qed

theorem getMessage_unhandled_never_throws_witness:
  "Some ''SCHEDULE'' \<notin> Some ` set recognised
   \<and> getMessage example_common (Some ''SCHEDULE'') JNull 0 =
       (Inr (''unhandledMessage'', Record JNull), 0)
   \<and> getMessage example_common None (JObj []) 0 =
       (Inr (''unhandledMessage'', Record (JObj [])), 0)
   \<and> fst (getMessage example_common (Some ''SCHEDULE,'') JNull 0) = Inl (TypeError ''Pport'')
   \<and> Some ''SCHEDULE,'' \<in> Some ` set recognised"
  using getMessage_unhandled_never_throws [of "Some ''SCHEDULE''" example_common JNull 0]
    getMessage_unhandled_never_throws [of None example_common "JObj []" 0]
    getMessage_unhandled_never_throws [of "Some ''SCHEDULE,''" example_common JNull 0
      "TypeError ''Pport''"]
  by (simp add: recognised_def getMessage_def bind_def pure_step_def)


section \<open>The stream decoder\<close>

text \<open>
  C4, as the code has it. When the gunzip stream of a message raises an error after its
  chunks, the handler emits nothing if no chunk had been accumulated, and otherwise
  exactly one \<^verbatim>\<open>error\<close> event carrying the error and the headers of the message; no
  other event is emitted for the message, and the converter and the classifier are not
  called. What leaves the handler is what that one \<^verbatim>\<open>emit\<close> throws. When no chunk had
  been accumulated, or the listeners of \<^verbatim>\<open>error\<close> return, the deliveries that follow are
  processed, from the global state that the listeners left.
\<close>

theorem stream_error_reported_once:
  "subscribe_callback ls common toJson
      \<lparr>err = None, headers = hs, stream = map Data chunks @ [StreamError e]\<rparr> g =
     (if chunks = [] then \<lparr>emitted = [], uncaught = None, glob = g, channel_calls = []\<rparr>
      else \<lparr>emitted = [(''error'', [AError e, AHeaders hs])],
            uncaught = fst (emit ls ''error'' [AError e, AHeaders hs] g),
            glob = snd (emit ls ''error'' [AError e, AHeaders hs] g), channel_calls = []\<rparr>)
   \<and> (chunks = [] \<longrightarrow>
      run_deliveries ls common toJson
        (\<lparr>err = None, headers = hs, stream = map Data chunks @ [StreamError e]\<rparr> # ds) g =
      run_deliveries ls common toJson ds g)
   \<and> (chunks \<noteq> [] \<and> emit ls ''error'' [AError e, AHeaders hs] g = (None, g') \<longrightarrow>
      run_deliveries ls common toJson
        (\<lparr>err = None, headers = hs, stream = map Data chunks @ [StreamError e]\<rparr> # ds) g =
      (run_deliveries ls common toJson ds g')
        \<lparr>emitted := (''error'', [AError e, AHeaders hs])
                     # emitted (run_deliveries ls common toJson ds g')\<rparr>)"
proof -
  let ?d = "\<lparr>err = None, headers = hs, stream = map Data chunks @ [StreamError e]\<rparr>"
  have "subscribe_callback ls common toJson ?d g = on_error ls (headers ?d) chunks e g"
    by (rule callback_chunks_StreamError) simp_all
  then have one: "subscribe_callback ls common toJson ?d g =
     (if chunks = [] then \<lparr>emitted = [], uncaught = None, glob = g, channel_calls = []\<rparr>
      else \<lparr>emitted = [(''error'', [AError e, AHeaders hs])],
            uncaught = fst (emit ls ''error'' [AError e, AHeaders hs] g),
            glob = snd (emit ls ''error'' [AError e, AHeaders hs] g), channel_calls = []\<rparr>)"
    by (simp add: on_error_outcome)
  have "run_deliveries ls common toJson (?d # ds) g =
      and_then (subscribe_callback ls common toJson ?d g) (run_deliveries ls common toJson ds)"
    by simp
  then show ?thesis
    unfolding one by (auto simp: and_then_ok)
qed

theorem stream_error_reported_once_witness:
  "subscribe_callback no_listeners example_common example_toJson
      (failing_message ''SCHEDULE,'' [] ''unexpected end of file'') 0 =
     \<lparr>emitted = [], uncaught = None, glob = 0, channel_calls = []\<rparr>
   \<and> subscribe_callback quiet_listeners example_common example_toJson
      (failing_message ''SCHEDULE,'' [''<Pport>'', ''<uR>''] ''incorrect data check'') 0 =
     \<lparr>emitted = [(''error'', [AError ''incorrect data check'',
                   AHeaders [(''FilterHeaderLevel'', ''SCHEDULE,'')]])],
      uncaught = None, glob = 0, channel_calls = []\<rparr>
   \<and> run_deliveries quiet_listeners example_common example_toJson
      [failing_message ''SCHEDULE,'' [''<Pport>'', ''<uR>''] ''incorrect data check'',
       schedule_message] 0 =
     \<lparr>emitted = [(''error'', [AError ''incorrect data check'',
                   AHeaders [(''FilterHeaderLevel'', ''SCHEDULE,'')]]),
                 schedule_event],
      uncaught = None, glob = 0, channel_calls = []\<rparr>"
  using stream_error_reported_once [of no_listeners example_common example_toJson
      "[(''FilterHeaderLevel'', ''SCHEDULE,'')]" "[]" "''unexpected end of file''" 0 "[]" 0]
    stream_error_reported_once [of quiet_listeners example_common example_toJson
      "[(''FilterHeaderLevel'', ''SCHEDULE,'')]" "[''<Pport>'', ''<uR>'']"
      "''incorrect data check''" 0 "[schedule_message]" 0]
  by (simp add: failing_message_def example_schedule_message emit_quiet_listeners
      and_then_ok and_then_returns run_deliveries_nil)

text \<open>
  C4 as the specification words it fails for a consumer that has registered no listener
  of \<^verbatim>\<open>error\<close>: \<^verbatim>\<open>emit\<close> then throws the error it is given (line 233 is in no \<^verbatim>\<open>try\<close>
  block). For a message whose stream fails after two chunks the error leaves the
  handler, and the well-formed message that follows is not processed.
\<close>

theorem stream_error_without_listener:
  "subscribe_callback no_listeners example_common example_toJson
      (failing_message ''SCHEDULE,'' [''<Pport>'', ''<uR>''] ''incorrect data check'') 0 =
     \<lparr>emitted = [(''error'', [AError ''incorrect data check'',
                   AHeaders [(''FilterHeaderLevel'', ''SCHEDULE,'')]])],
      uncaught = Some (Thrown ''incorrect data check''), glob = 0, channel_calls = []\<rparr>
   \<and> run_deliveries no_listeners example_common example_toJson
      [failing_message ''SCHEDULE,'' [''<Pport>'', ''<uR>''] ''incorrect data check'',
       schedule_message] 0 =
     \<lparr>emitted = [(''error'', [AError ''incorrect data check'',
                   AHeaders [(''FilterHeaderLevel'', ''SCHEDULE,'')]])],
      uncaught = Some (Thrown ''incorrect data check''), glob = 0, channel_calls = []\<rparr>"
proof -
  let ?d = "failing_message ''SCHEDULE,'' [''<Pport>'', ''<uR>''] ''incorrect data check''"
  have "subscribe_callback no_listeners example_common example_toJson ?d 0 =
      on_error no_listeners (headers ?d) [''<Pport>'', ''<uR>''] ''incorrect data check'' 0"
    by (rule callback_chunks_StreamError) (simp_all add: failing_message_def)
  then have one: "subscribe_callback no_listeners example_common example_toJson ?d 0 =
     \<lparr>emitted = [(''error'', [AError ''incorrect data check'',
                   AHeaders [(''FilterHeaderLevel'', ''SCHEDULE,'')]])],
      uncaught = Some (Thrown ''incorrect data check''), glob = 0, channel_calls = []\<rparr>"
    by (simp add: on_error_outcome emit_no_listeners unhandled_def failing_message_def)
  show ?thesis
    by (simp add: one and_then_uncaught)
qed

text \<open>
  C3, as the code has it. For every message whose stream ends after its chunks, whose XML
  conversion returns a record and whose key transform returns the transformed record, a
  failure thrown by the classifier, among them every failure of a domain-object
  constructor, is caught: the handler emits exactly one \<^verbatim>\<open>messageErr\<close> event, carrying the
  stack of the error and the transformed record serialised by \<^verbatim>\<open>JSON.stringify\<close>. The
  failure does not leave the handler: what leaves it is what the \<^verbatim>\<open>emit\<close> of
  \<^verbatim>\<open>messageErr\<close> throws, and when the listeners of \<^verbatim>\<open>messageErr\<close> return, the deliveries
  that follow are processed, from the global state that the listeners left.
\<close>

theorem classifier_failure_is_caught:
  fixes common :: "('g, 'x, 'd) common"
  assumes "err d = None" and "stream d = map Data chunks @ [End]"
    and "toJson (concat chunks) toJson_opts = Inr converted"
    and "replaceKeys converted = (Inr messageJSON :: 'x exn + json)"
    and "getMessage common (map_of (headers d) ''FilterHeaderLevel'') messageJSON g =
           (Inl messageErr, g')"
  shows "subscribe_callback ls common toJson d g =
           \<lparr>emitted = [(''messageErr'',
              [AStack messageErr, AString (JSON_stringify messageJSON)])],
            uncaught = fst (emit ls ''messageErr''
              [AStack messageErr, AString (JSON_stringify messageJSON)] g'),
            glob = snd (emit ls ''messageErr''
              [AStack messageErr, AString (JSON_stringify messageJSON)] g'),
            channel_calls = []\<rparr>
         \<and> (emit ls ''messageErr''
              [AStack messageErr, AString (JSON_stringify messageJSON)] g' = (None, h) \<longrightarrow>
           run_deliveries ls common toJson (d # ds) g =
           (run_deliveries ls common toJson ds h)
             \<lparr>emitted := (''messageErr'',
                  [AStack messageErr, AString (JSON_stringify messageJSON)])
                # emitted (run_deliveries ls common toJson ds h)\<rparr>)"
proof -
  have "subscribe_callback ls common toJson d g =
      on_end ls common toJson (map_of (headers d) ''FilterHeaderLevel'') chunks g"
    using assms(1,2) by (rule callback_chunks_End)
  also have "\<dots> = \<lparr>emitted = [(''messageErr'',
              [AStack messageErr, AString (JSON_stringify messageJSON)])],
            uncaught = fst (emit ls ''messageErr''
              [AStack messageErr, AString (JSON_stringify messageJSON)] g'),
            glob = snd (emit ls ''messageErr''
              [AStack messageErr, AString (JSON_stringify messageJSON)] g'),
            channel_calls = []\<rparr>"
    using assms(3,4,5) by (rule on_end_classifier_throws)
  finally show ?thesis
    by (auto simp: and_then_ok)
qed

theorem classifier_failure_is_caught_witness:
  "getMessage example_common (Some ''SCHEDULE,'') empty_uR_record 0 =
     (Inl (Thrown ''not an object''), 0)
   \<and> subscribe_callback quiet_listeners example_common example_toJson empty_uR_message 0 =
     \<lparr>emitted = [(''messageErr'',
        [AStack (Thrown ''not an object''), AString (JSON_stringify empty_uR_record)])],
      uncaught = None, glob = 0, channel_calls = []\<rparr>
   \<and> run_deliveries quiet_listeners example_common example_toJson
       [empty_uR_message, schedule_message] 0 =
     \<lparr>emitted = [(''messageErr'',
        [AStack (Thrown ''not an object''), AString (JSON_stringify empty_uR_record)]),
        schedule_event],
      uncaught = None, glob = 0, channel_calls = []\<rparr>"
proof -
  have h1: "err empty_uR_message = None"
    by (simp add: empty_uR_message_def message_def)
  have h2: "stream empty_uR_message = map Data [''<Pport><uR/>'', ''</Pport>''] @ [End]"
    by (simp add: empty_uR_message_def message_def)
  have h3: "example_toJson (concat [''<Pport><uR/>'', ''</Pport>'']) toJson_opts =
      Inr empty_uR_record"
    using example_toJson_empty_uR by simp
  have h4: "replaceKeys empty_uR_record = (Inr empty_uR_record :: string exn + json)"
    unfolding empty_uR_record_def by (rule replaceKeys_example_empty_uR)
  have h5: "getMessage example_common (map_of (headers empty_uR_message) ''FilterHeaderLevel'')
      empty_uR_record 0 = (Inl (Thrown ''not an object''), 0)"
    by (simp add: empty_uR_message_def message_def getMessage_empty_uR_record)
  show ?thesis
    using classifier_failure_is_caught [where toJson = example_toJson
        and ls = quiet_listeners
        and chunks = "[''<Pport><uR/>'', ''</Pport>'']" and ds = "[schedule_message]"
        and h = 0,
        OF h1 h2 h3 h4 h5] getMessage_empty_uR_record [of 0]
    by (simp add: example_schedule_message emit_quiet_listeners and_then_ok and_then_returns
        run_deliveries_nil)
qed

text \<open>
  C3 as the specification words it fails: the statement that converts the decoded text
  and hands the result to the key transform (line 243) lies between the end of decoding
  and the emission of the event, and before the \<^verbatim>\<open>try\<close> block. For a message that
  decompresses to a text with a mismatched end tag, which the converter refuses, the
  exception leaves the handler though every listener returns; no \<^verbatim>\<open>messageErr\<close> is
  emitted, and the well-formed message that follows is not processed.
\<close>

theorem conversion_failure_escapes:
  "subscribe_callback quiet_listeners example_common example_toJson mismatched_message 0 =
     \<lparr>emitted = [],
      uncaught = Some (Thrown ''There are errors in your xml file: mismatched tag''),
      glob = 0, channel_calls = []\<rparr>
   \<and> run_deliveries quiet_listeners example_common example_toJson
       [mismatched_message, schedule_message] 0 =
     \<lparr>emitted = [],
      uncaught = Some (Thrown ''There are errors in your xml file: mismatched tag''),
      glob = 0, channel_calls = []\<rparr>"
  by (simp add: example_mismatched_message and_then_uncaught)

text \<open>
  C5, as the code has it. For every message delivered without a subscription error whose
  gunzip stream fires its chunks and then one final event. If the stream errors, nothing
  is emitted when no chunk had come and exactly one \<^verbatim>\<open>error\<close> event otherwise. If the
  stream ends and the XML conversion or the key transform throws, nothing is emitted and
  the exception leaves the handler. If the stream ends and both return: when the
  classifier throws, exactly one \<^verbatim>\<open>messageErr\<close> is emitted and no typed event; when it
  returns, the event it names, one of the six typed events, is emitted, alone if its
  listeners return, and followed by exactly one \<^verbatim>\<open>messageErr\<close> that carries the
  exception if one of its listeners throws. An exception that leaves the handler after
  an event was emitted is the one that the \<^verbatim>\<open>emit\<close> of \<^verbatim>\<open>error\<close> or of \<^verbatim>\<open>messageErr\<close>
  throws.
\<close>

theorem one_event_per_message:
  fixes common :: "('g, 'x, 'd) common"
  assumes "err d = None" and "stream d = map Data chunks @ [final]"
  shows
  "(final = StreamError e \<longrightarrow>
      subscribe_callback ls common toJson d g =
        (if chunks = [] then \<lparr>emitted = [], uncaught = None, glob = g, channel_calls = []\<rparr>
         else \<lparr>emitted = [(''error'', [AError e, AHeaders (headers d)])],
               uncaught = fst (emit ls ''error'' [AError e, AHeaders (headers d)] g),
               glob = snd (emit ls ''error'' [AError e, AHeaders (headers d)] g),
               channel_calls = []\<rparr>))
   \<and> (final = End \<longrightarrow>
      (case toJson (concat chunks) toJson_opts of
         Inl x \<Rightarrow>
           subscribe_callback ls common toJson d g =
             \<lparr>emitted = [], uncaught = Some (Thrown x), glob = g, channel_calls = []\<rparr>
       | Inr converted \<Rightarrow>
           (case (replaceKeys converted :: 'x exn + json) of
              Inl ex \<Rightarrow>
                subscribe_callback ls common toJson d g =
                  \<lparr>emitted = [], uncaught = Some ex, glob = g, channel_calls = []\<rparr>
            | Inr messageJSON \<Rightarrow>
                (case getMessage common (map_of (headers d) ''FilterHeaderLevel'') messageJSON g of
                   (Inl messageErr, g') \<Rightarrow>
                     subscribe_callback ls common toJson d g =
                       \<lparr>emitted = [(''messageErr'',
                          [AStack messageErr, AString (JSON_stringify messageJSON)])],
                        uncaught = fst (emit ls ''messageErr''
                          [AStack messageErr, AString (JSON_stringify messageJSON)] g'),
                        glob = snd (emit ls ''messageErr''
                          [AStack messageErr, AString (JSON_stringify messageJSON)] g'),
                        channel_calls = []\<rparr>
                 | (Inr (name, payload), g') \<Rightarrow>
                     name \<in> set typed_events
                     \<and> (case emit ls name [APayload payload] g' of
                          (None, h) \<Rightarrow>
                            subscribe_callback ls common toJson d g =
                              \<lparr>emitted = [(name, [APayload payload])], uncaught = None,
                               glob = h, channel_calls = []\<rparr>
                        | (Some messageErr, h) \<Rightarrow>
                            subscribe_callback ls common toJson d g =
                              \<lparr>emitted = [(name, [APayload payload]),
                                 (''messageErr'',
                                  [AStack messageErr, AString (JSON_stringify messageJSON)])],
                               uncaught = fst (emit ls ''messageErr''
                                 [AStack messageErr, AString (JSON_stringify messageJSON)] h),
                               glob = snd (emit ls ''messageErr''
                                 [AStack messageErr, AString (JSON_stringify messageJSON)] h),
                               channel_calls = []\<rparr>)))))"
proof (intro conjI impI)
  assume "final = StreamError e"
  with assms show "subscribe_callback ls common toJson d g =
        (if chunks = [] then \<lparr>emitted = [], uncaught = None, glob = g, channel_calls = []\<rparr>
         else \<lparr>emitted = [(''error'', [AError e, AHeaders (headers d)])],
               uncaught = fst (emit ls ''error'' [AError e, AHeaders (headers d)] g),
               glob = snd (emit ls ''error'' [AError e, AHeaders (headers d)] g),
               channel_calls = []\<rparr>)"
    by (simp add: callback_chunks_StreamError on_error_outcome)
next
  assume "final = End"
  with assms have cb: "subscribe_callback ls common toJson d g =
      on_end ls common toJson (map_of (headers d) ''FilterHeaderLevel'') chunks g"
    by (simp add: callback_chunks_End)
  show "case toJson (concat chunks) toJson_opts of
         Inl x \<Rightarrow>
           subscribe_callback ls common toJson d g =
             \<lparr>emitted = [], uncaught = Some (Thrown x), glob = g, channel_calls = []\<rparr>
       | Inr converted \<Rightarrow>
           (case (replaceKeys converted :: 'x exn + json) of
              Inl ex \<Rightarrow>
                subscribe_callback ls common toJson d g =
                  \<lparr>emitted = [], uncaught = Some ex, glob = g, channel_calls = []\<rparr>
            | Inr messageJSON \<Rightarrow>
                (case getMessage common (map_of (headers d) ''FilterHeaderLevel'') messageJSON g of
                   (Inl messageErr, g') \<Rightarrow>
                     subscribe_callback ls common toJson d g =
                       \<lparr>emitted = [(''messageErr'',
                          [AStack messageErr, AString (JSON_stringify messageJSON)])],
                        uncaught = fst (emit ls ''messageErr''
                          [AStack messageErr, AString (JSON_stringify messageJSON)] g'),
                        glob = snd (emit ls ''messageErr''
                          [AStack messageErr, AString (JSON_stringify messageJSON)] g'),
                        channel_calls = []\<rparr>
                 | (Inr (name, payload), g') \<Rightarrow>
                     name \<in> set typed_events
                     \<and> (case emit ls name [APayload payload] g' of
                          (None, h) \<Rightarrow>
                            subscribe_callback ls common toJson d g =
                              \<lparr>emitted = [(name, [APayload payload])], uncaught = None,
                               glob = h, channel_calls = []\<rparr>
                        | (Some messageErr, h) \<Rightarrow>
                            subscribe_callback ls common toJson d g =
                              \<lparr>emitted = [(name, [APayload payload]),
                                 (''messageErr'',
                                  [AStack messageErr, AString (JSON_stringify messageJSON)])],
                               uncaught = fst (emit ls ''messageErr''
                                 [AStack messageErr, AString (JSON_stringify messageJSON)] h),
                               glob = snd (emit ls ''messageErr''
                                 [AStack messageErr, AString (JSON_stringify messageJSON)] h),
                               channel_calls = []\<rparr>)))"
  proof (cases "toJson (concat chunks) toJson_opts")
    case (Inl x)
    then show ?thesis by (simp add: cb on_end_conversion_throws)
  next
    case conv: (Inr converted)
    show ?thesis
    proof (cases "replaceKeys converted :: 'x exn + json")
      case (Inl ex)
      with conv show ?thesis by (simp add: cb on_end_transform_throws)
    next
      case tr: (Inr messageJSON)
      obtain r g' where
        r: "getMessage common (map_of (headers d) ''FilterHeaderLevel'') messageJSON g = (r, g')"
        by (cases "getMessage common (map_of (headers d) ''FilterHeaderLevel'') messageJSON g")
      show ?thesis
      proof (cases r)
        case (Inl messageErr)
        with conv tr r show ?thesis
          by (simp add: cb on_end_classifier_throws)
      next
        case (Inr ev)
        obtain name payload where ev: "ev = (name, payload)" by (cases ev)
        from Inr ev r have cls:
          "getMessage common (map_of (headers d) ''FilterHeaderLevel'') messageJSON g =
             (Inr (name, payload), g')"
          by simp
        then have names: "name \<in> set typed_events"
          by (rule getMessage_names)
        obtain thrown h where em: "emit ls name [APayload payload] g' = (thrown, h)"
          by (cases "emit ls name [APayload payload] g'")
        show ?thesis
        proof (cases thrown)
          case None
          with names conv tr cls em show ?thesis
            by (simp add: cb on_end_classified)
        next
          case (Some messageErr)
          with names conv tr cls em show ?thesis
            by (simp add: cb on_end_listener_throws)
        qed
      qed
    qed
  qed
qed

theorem one_event_per_message_witness:
  "subscribe_callback quiet_listeners example_common example_toJson
      (failing_message ''TRAINSTATUS,'' [''<Pport>''] ''incorrect header check'') 0 =
     \<lparr>emitted = [(''error'', [AError ''incorrect header check'',
                   AHeaders [(''FilterHeaderLevel'', ''TRAINSTATUS,'')]])],
      uncaught = None, glob = 0, channel_calls = []\<rparr>
   \<and> ''schedule'' \<in> set typed_events
   \<and> subscribe_callback quiet_listeners example_common example_toJson schedule_message 0 =
     \<lparr>emitted = [schedule_event], uncaught = None, glob = 0, channel_calls = []\<rparr>
   \<and> subscribe_callback quiet_listeners example_common example_toJson empty_uR_message 0 =
     \<lparr>emitted = [(''messageErr'',
        [AStack (Thrown ''not an object''), AString (JSON_stringify empty_uR_record)])],
      uncaught = None, glob = 0, channel_calls = []\<rparr>"
proof -
  let ?f = "failing_message ''TRAINSTATUS,'' [''<Pport>''] ''incorrect header check''"
  have f1: "err ?f = None"
    by (simp add: failing_message_def)
  have f2: "stream ?f = map Data [''<Pport>''] @ [StreamError ''incorrect header check'']"
    by (simp add: failing_message_def)
  have s1: "err schedule_message = None"
    by (simp add: schedule_message_def message_def)
  have s2: "stream schedule_message =
      map Data [''<Pport><uR><sched'', ''ule/></uR></Pport>''] @ [End]"
    by (simp add: schedule_message_def message_def)
  have s3: "map_of (headers schedule_message) ''FilterHeaderLevel'' = Some ''SCHEDULE,''"
    by (simp add: schedule_message_def message_def)
  have u1: "err empty_uR_message = None"
    by (simp add: empty_uR_message_def message_def)
  have u2: "stream empty_uR_message = map Data [''<Pport><uR/>'', ''</Pport>''] @ [End]"
    by (simp add: empty_uR_message_def message_def)
  have u3: "map_of (headers empty_uR_message) ''FilterHeaderLevel'' = Some ''SCHEDULE,''"
    by (simp add: empty_uR_message_def message_def)
  have t1: "replaceKeys schedule_record = (Inr schedule_record :: string exn + json)"
    unfolding schedule_record_def by (rule replaceKeys_example_schedule)
  have t2: "replaceKeys empty_uR_record = (Inr empty_uR_record :: string exn + json)"
    unfolding empty_uR_record_def by (rule replaceKeys_example_empty_uR)
  have a: "subscribe_callback quiet_listeners example_common example_toJson ?f 0 =
     \<lparr>emitted = [(''error'', [AError ''incorrect header check'',
                   AHeaders [(''FilterHeaderLevel'', ''TRAINSTATUS,'')]])],
      uncaught = None, glob = 0, channel_calls = []\<rparr>"
    using one_event_per_message [OF f1 f2, of "''incorrect header check''" quiet_listeners
        example_common example_toJson 0]
    by (simp add: failing_message_def emit_quiet_listeners)
  have b: "''schedule'' \<in> set typed_events
     \<and> subscribe_callback quiet_listeners example_common example_toJson schedule_message 0 =
       \<lparr>emitted = [schedule_event], uncaught = None, glob = 0, channel_calls = []\<rparr>"
    using one_event_per_message [OF s1 s2, of "''none''" quiet_listeners
        example_common example_toJson 0]
    by (simp add: s3 example_toJson_schedule t1 getMessage_schedule_record emit_quiet_listeners
        schedule_event_def)
  have c: "subscribe_callback quiet_listeners example_common example_toJson empty_uR_message 0 =
     \<lparr>emitted = [(''messageErr'',
        [AStack (Thrown ''not an object''), AString (JSON_stringify empty_uR_record)])],
      uncaught = None, glob = 0, channel_calls = []\<rparr>"
    using one_event_per_message [OF u1 u2, of "''none''" quiet_listeners
        example_common example_toJson 0]
    by (simp add: u3 example_toJson_empty_uR t2 getMessage_empty_uR_record emit_quiet_listeners)
  from a b c show ?thesis
    by simp
qed

text \<open>
  C5 as the specification words it fails in both directions. Neither: for the message
  whose text has a mismatched end tag, whose stream delivered two chunks and ended,
  neither a typed event nor an error notification is emitted; the exception leaves the
  handler. Both: for the schedule message, when the consumer's listener of \<^verbatim>\<open>schedule\<close>
  throws, the \<^verbatim>\<open>schedule\<close> event and a \<^verbatim>\<open>messageErr\<close> are both emitted, because the
  \<^verbatim>\<open>emit\<close> of the typed event is inside the \<^verbatim>\<open>try\<close> block (line 252).
\<close>

theorem message_with_neither_or_both:
  "emitted (subscribe_callback quiet_listeners example_common example_toJson
      mismatched_message 0) = []
   \<and> uncaught (subscribe_callback quiet_listeners example_common example_toJson
      mismatched_message 0) =
       Some (Thrown ''There are errors in your xml file: mismatched tag'')
   \<and> emitted (subscribe_callback failing_schedule_listener example_common example_toJson
      schedule_message 0) =
       [schedule_event,
        (''messageErr'',
          [AStack (Thrown ''listener failed''), AString (JSON_stringify schedule_record)])]
   \<and> uncaught (subscribe_callback failing_schedule_listener example_common example_toJson
      schedule_message 0) = None"
  by (simp add: example_mismatched_message example_failing_listener_message)

section \<open>The subscription callback\<close>

text \<open>
  C9, as the code has it. When the callback is called with an error, it emits exactly one
  \<^verbatim>\<open>error\<close> event carrying that error and returns: the converter and the constructors are
  not called whatever the message and its stream are (the global state is the one the
  listeners of \<^verbatim>\<open>error\<close> left), and it makes no call on the channel, so it does not
  subscribe again. What leaves the callback is what that one \<^verbatim>\<open>emit\<close> throws; when the
  listeners of \<^verbatim>\<open>error\<close> return, the deliveries that follow are processed.
\<close>

theorem subscription_error_reported:
  "err d = Some e \<Longrightarrow>
   subscribe_callback ls common toJson d g =
     \<lparr>emitted = [(''error'', [AError e])], uncaught = fst (emit ls ''error'' [AError e] g),
      glob = snd (emit ls ''error'' [AError e] g), channel_calls = []\<rparr>
   \<and> (emit ls ''error'' [AError e] g = (None, g') \<longrightarrow>
      run_deliveries ls common toJson (d # ds) g =
      (run_deliveries ls common toJson ds g')
        \<lparr>emitted := (''error'', [AError e]) # emitted (run_deliveries ls common toJson ds g')\<rparr>)"
proof -
  assume "err d = Some e"
  then have one: "subscribe_callback ls common toJson d g =
      \<lparr>emitted = [(''error'', [AError e])], uncaught = fst (emit ls ''error'' [AError e] g),
       glob = snd (emit ls ''error'' [AError e] g), channel_calls = []\<rparr>"
    by (simp add: subscribe_callback_def this_emit_outcome)
  have "run_deliveries ls common toJson (d # ds) g =
      and_then (subscribe_callback ls common toJson d g) (run_deliveries ls common toJson ds)"
    by simp
  then show ?thesis
    unfolding one by (auto simp: and_then_ok)
qed

theorem subscription_error_reported_witness:
  "subscribe_callback quiet_listeners example_common example_toJson
     (schedule_message\<lparr>err := Some ''subscribe failed''\<rparr>) 0 =
     \<lparr>emitted = [(''error'', [AError ''subscribe failed''])], uncaught = None, glob = 0,
      channel_calls = []\<rparr>
   \<and> run_deliveries quiet_listeners example_common example_toJson
     [schedule_message\<lparr>err := Some ''subscribe failed''\<rparr>, schedule_message] 0 =
     \<lparr>emitted = [(''error'', [AError ''subscribe failed'']), schedule_event],
      uncaught = None, glob = 0, channel_calls = []\<rparr>"
  using subscription_error_reported [of "schedule_message\<lparr>err := Some ''subscribe failed''\<rparr>"
      "''subscribe failed''" quiet_listeners example_common example_toJson 0 0
      "[schedule_message]"]
  by (simp add: example_schedule_message emit_quiet_listeners and_then_ok and_then_returns
      run_deliveries_nil)

text \<open>
  C9 as the specification words it fails for a consumer that has registered no listener
  of \<^verbatim>\<open>error\<close>: \<^verbatim>\<open>emit\<close> then throws the error it is given (line 219 is in no \<^verbatim>\<open>try\<close>
  block), the error leaves the callback, and the well-formed message that follows is not
  processed.
\<close>

theorem subscription_error_without_listener:
  "subscribe_callback no_listeners example_common example_toJson
     (schedule_message\<lparr>err := Some ''subscribe failed''\<rparr>) 0 =
     \<lparr>emitted = [(''error'', [AError ''subscribe failed''])],
      uncaught = Some (Thrown ''subscribe failed''), glob = 0, channel_calls = []\<rparr>
   \<and> run_deliveries no_listeners example_common example_toJson
     [schedule_message\<lparr>err := Some ''subscribe failed''\<rparr>, schedule_message] 0 =
     \<lparr>emitted = [(''error'', [AError ''subscribe failed''])],
      uncaught = Some (Thrown ''subscribe failed''), glob = 0, channel_calls = []\<rparr>"
  by (simp add: subscribe_callback_def this_emit_outcome emit_no_listeners unhandled_def
      and_then_uncaught)

section \<open>The key transform\<close>

text \<open>
  C2 fails on the code: \<^verbatim>\<open>replaceKeys\<close> rewrites the text of the whole record, so a string
  value that begins with \<^verbatim>\<open>ns\<close>, a digit and a colon loses that prefix, though it is no
  key; the walk over the keys that the specification describes leaves the value alone.
  The theorem runs \<^verbatim>\<open>replaceKeys\<close> and the walk on the record with the one member
  \<^verbatim>\<open>note\<close>, whose value is the string \<^verbatim>\<open>ns1:hello\<close>.
\<close>

theorem replaceKeys_rewrites_string_value:
  "replaceKeys (JObj [(''note'', JStr ''ns1:hello'')]) = Inr (JObj [(''note'', JStr ''hello'')])
   \<and> spec_rename_keys (JObj [(''note'', JStr ''ns1:hello'')]) = JObj [(''note'', JStr ''ns1:hello'')]"
proof
  show "replaceKeys (JObj [(''note'', JStr ''ns1:hello'')]) = Inr (JObj [(''note'', JStr ''hello'')])"
    by (rule replaceKeys_parse) code_simp
  show "spec_rename_keys (JObj [(''note'', JStr ''ns1:hello'')]) = JObj [(''note'', JStr ''ns1:hello'')]"
    by (simp add: spec_rename_key_def literal_def)
qed

text \<open>
  Two more runs of \<^verbatim>\<open>replaceKeys\<close>: a string value equal to the Location marker becomes
  \<^verbatim>\<open>locations\<close>, and two keys that differ only in their prefix become one key, which
  keeps the second value.
\<close>

lemma replaceKeys_rewrites_marker_value:
  "replaceKeys (JObj [(''tag'', JStr ''ns3:Location'')]) = Inr (JObj [(''tag'', JStr ''locations'')])"
  by (rule replaceKeys_parse) code_simp

lemma replaceKeys_merges_keys:
  "replaceKeys (JObj [(''ns1:a'', JNum ''1''), (''ns2:a'', JNum ''2'')]) = Inr (JObj [(''a'', JNum ''2'')])"
  by (rule replaceKeys_parse) code_simp

text \<open>
  On the trees described above \<^verbatim>\<open>replaceKeys\<close> does return the tree with the keys
  renamed and everything else as it was: when no string or key needs an escape, no string
  value begins with \<^verbatim>\<open>ns\<close>, a digit and a colon, and the renaming neither makes two keys
  of an object equal nor makes a key an array index.
\<close>

theorem replaceKeys_renames_keys:
  assumes "rewritable j" and "canonical (spec_rename_keys j)"
  shows "replaceKeys j = Inr (spec_rename_keys j)"
proof -
  have loc: "[dquote] @ ''locations'' @ [dquote] = quote ''locations''"
    by (simp add: quote_plain plain_def plain_char_def dquote_def backslash_def)
  have fix1: "rename_Location s = s" if "\<not> ns_prefixed s" for s
    using that by (auto simp: rename_Location_def ns_prefixed_def literal_def is_digit_def)
  have fix2: "strip_prefix s = s" if "\<not> ns_prefixed s" for s
    using that by (simp add: strip_prefix_def)
  have plain1: "plain (rename_Location s)" if "plain s" for s
    using that by (simp add: rename_Location_def plain_def plain_char_def dquote_def backslash_def)
  have "replace_from re_ns3_Location (quote ''locations'') 0 (JSON_stringify j @ []) =
      JSON_stringify (map_keys rename_Location j) @ replace_from re_ns3_Location (quote ''locations'') 0 []"
    by (rule replace_stringify [OF replace_quote_Location replace_inside(1) fix1 assms(1)])
       (simp_all add: closes_punct)
  then have one: "replace_all re_ns3_Location (quote ''locations'') (JSON_stringify j) =
      JSON_stringify (map_keys rename_Location j)"
    by (simp add: replace_all_def replace_from.simps)
  have "rewritable (map_keys rename_Location j)"
    using plain1 assms(1) by (rule rewritable_map_keys)
  then have "replace_from re_ns_digit [dquote] 0 (JSON_stringify (map_keys rename_Location j) @ []) =
      JSON_stringify (map_keys strip_prefix (map_keys rename_Location j))
        @ replace_from re_ns_digit [dquote] 0 []"
    by (intro replace_stringify [OF replace_quote_prefix replace_inside(2) fix2])
       (simp_all add: closes_punct)
  then have two: "replace_all re_ns_digit [dquote] (JSON_stringify (map_keys rename_Location j)) =
      JSON_stringify (spec_rename_keys j)"
    by (simp add: replace_all_def replace_from.simps map_keys_comp spec_rename_keys_map
        spec_rename_key_steps)
  show ?thesis
    by (rule replaceKeys_parse) (simp only: loc one two parse_json_stringify [OF assms(2)])
qed

lemma replaceKeys_renames_keys_example:
  "replaceKeys (JObj [(''ns2:a'', JArr [JObj [(''ns3:Location'', JStr ''Crewe''), (''ns5:wta'', JNum ''12.5'')],
      JNull, JBool True])]) =
   Inr (JObj [(''a'', JArr [JObj [(''locations'', JStr ''Crewe''), (''wta'', JNum ''12.5'')],
      JNull, JBool True])])"
  by (rule replaceKeys_parse) code_simp

section \<open>The reconnect policy\<close>

text \<open>
  C6: the policy that connect installs has exponential backoff switched on and jitter
  switched off. The delay before the first attempt is the initial delay, 10; every further
  failure doubles it, up to the maximum delay, 30000, so that after N consecutive
  failures the delay before attempt N+1 is the smaller of 10 times 2 to the N and 30000,
  whatever the jitter would be; attempt N+1 is made only while N is below the maximum
  attempt count, 30.
\<close>

theorem reconnect_policy_backoff:
  "useExponentialBackOff reconnectOptions
   \<and> \<not> randomize reconnectOptions
   \<and> reconnect_delay reconnectOptions jitter 0 = initialReconnectDelay reconnectOptions
   \<and> reconnect_delay reconnectOptions jitter (Suc N) =
       min (2 * reconnect_delay reconnectOptions jitter N) (maxReconnectDelay reconnectOptions)
   \<and> reconnect_delay reconnectOptions jitter N = min (10 * 2 ^ N) 30000
   \<and> attempt_made reconnectOptions (N + 1) = (N < 30)"
proof -
  have opts: "initialReconnectDelay reconnectOptions = 10"
    "maxReconnectDelay reconnectOptions = 30000" "useExponentialBackOff reconnectOptions"
    "\<not> randomize reconnectOptions" "maxReconnects reconnectOptions = 30"
    by (simp_all add: reconnectOptions_def)
  have pow: "(backoff_formula reconnectOptions ^^ n) 10 = 10 * 2 ^ n" for n
    by (induction n) (simp_all add: backoff_formula_def opts)
  have delay: "reconnect_delay reconnectOptions jitter n = min (10 * 2 ^ n) 30000" for n
    by (simp add: reconnect_delay_def opts pow)
  have "attempt_made reconnectOptions (N + 1) = (N < 30)"
    by (auto simp: attempt_made_def opts)
  then show ?thesis
    by (simp add: delay opts)
qed

theorem reconnect_policy_backoff_witness:
  "reconnect_delay reconnectOptions 7 0 = 10
   \<and> reconnect_delay reconnectOptions 7 3 = 80
   \<and> reconnect_delay reconnectOptions 7 12 = 30000
   \<and> attempt_made reconnectOptions 30
   \<and> \<not> attempt_made reconnectOptions 31"
  using reconnect_policy_backoff [of 7 0] reconnect_policy_backoff [of 7 3]
    reconnect_policy_backoff [of 7 12] reconnect_policy_backoff [of 7 29]
    reconnect_policy_backoff [of 7 30]
  by simp

section \<open>The coercion of trainId\<close>

text \<open>
  C7: with the options that the handler of stream-end gives to the XML conversion, the
  text of a field named \<^verbatim>\<open>trainId\<close> becomes the string with exactly that text, whatever
  the text is and whatever the converter would make of it otherwise; a leading zero
  stays.
\<close>

theorem trainId_kept_as_string:
  "coerce_field toJson_opts default_coercion ''trainId'' text = JStr text"
  by (simp add: coerce_field_def toJson_opts_def trainId_hook_def)

theorem trainId_kept_as_string_witness:
  "coerce_field toJson_opts (\<lambda>text. JNum ''123'') ''trainId'' ''0123'' = JStr ''0123''
   \<and> coerce_field toJson_opts (\<lambda>text. JNum ''123'') ''trainId'' ''0B00'' = JStr ''0B00''
   \<and> coerce_field toJson_opts (\<lambda>text. JNum ''123'') ''rid'' ''0123'' = JNum ''123''"
  using trainId_kept_as_string [of "\<lambda>text. JNum ''123''" "''0123''"]
    trainId_kept_as_string [of "\<lambda>text. JNum ''123''" "''0B00''"]
  by (simp add: coerce_field_def toJson_opts_def)

end
